theory Spec2Isabelle
  imports Complex_Main "HOL-Library.Log_Nat"
begin

section \<open>Data model\<close>

text \<open>
  Embedding of the blogging API: the Mongoose schema of \<^verbatim>\<open>models/Blog.js\<close>, the
  controllers of \<^verbatim>\<open>controllers/blogController.js\<close> and
  \<^verbatim>\<open>controllers/authController.js\<close>, the middleware of \<^verbatim>\<open>middleware/auth.js\<close> and
  the route table of \<^verbatim>\<open>routes/blogRoutes.js\<close>.

  Conventions.
  \<^item> An ObjectId is a value of type \<open>oid\<close>; a request parameter is taken as already cast
    to one (a malformed id string is outside the model).
  \<^item> A JavaScript string is the \<open>string\<close> of its UTF-8 bytes. Equality, emptiness,
    \<^verbatim>\<open>startsWith\<close> and splitting at an ASCII character read the same on the bytes as on
    the string; whitespace is matched as whole encoded characters.
  \<^item> A JavaScript Number is a double. The type \<open>number\<close> holds the values the
    controllers compute with: \<open>NaN\<close>, the two infinities and the doubles that are
    integers (the sign of zero is not kept). A Number stored in a document is the \<open>int\<close>
    it holds. Every operation rounds as the double operation does.
  \<^item> A collection is the list of its documents. The order in which the store answers a
    query that asks for no order is the store's own: it is the field \<open>scan_rank\<close> of the
    store, by which such an answer is arranged.
  \<^item> A handler takes the store and returns its response together with the store it
    leaves behind. \<open>Inl (Status c m)\<close> is \<^verbatim>\<open>res.status(c).json({success: false, message: m})\<close>,
    \<open>Inl (Next e)\<close> is \<^verbatim>\<open>next(error)\<close> with the exception caught by the handler's
    \<^verbatim>\<open>try\<close>, \<open>Inr r\<close> is the success payload.
\<close>

subsection \<open>Numbers\<close>

datatype number = NaN | Infinity | MinusInfinity | Finite int

text \<open>
  The double nearest to an integer, ties to the even significand, before any overflow:
  an integer of magnitude up to \<open>2^53\<close> is a double; a larger one keeps its 53 leading
  bits, rounded.
\<close>

definition round_to_double :: "int \<Rightarrow> int" where
  "round_to_double n =
     (if \<bar>n\<bar> \<le> 2 ^ 53 then n
      else
        (let q = 2 ^ (nat (bitlen \<bar>n\<bar>) - 53);
             m = \<bar>n\<bar> div q;
             r = \<bar>n\<bar> mod q;
             m' = (if q < 2 * r \<or> (2 * r = q \<and> odd m) then m + 1 else m)
         in sgn n * (m' * q)))"

text \<open>The Number an exact integer result becomes.\<close>

definition Number :: "int \<Rightarrow> number" where
  "Number n =
     (let v = round_to_double n
      in if 2 ^ 1024 \<le> v then Infinity
         else if v \<le> - (2 ^ 1024) then MinusInfinity
         else Finite v)"

text \<open>\<^verbatim>\<open>x - 1\<close> and \<^verbatim>\<open>x * y\<close> on Numbers.\<close>

definition minus_one :: "number \<Rightarrow> number" where
  "minus_one x = (case x of Finite n \<Rightarrow> Number (n - 1) | _ \<Rightarrow> x)"

definition times :: "number \<Rightarrow> number \<Rightarrow> number" where
  "times x y =
     (case (x, y) of
        (NaN, _) \<Rightarrow> NaN
      | (_, NaN) \<Rightarrow> NaN
      | (Finite a, Finite b) \<Rightarrow> Number (a * b)
      | (Finite a, Infinity) \<Rightarrow>
          (if a = 0 then NaN else if 0 < a then Infinity else MinusInfinity)
      | (Finite a, MinusInfinity) \<Rightarrow>
          (if a = 0 then NaN else if 0 < a then MinusInfinity else Infinity)
      | (Infinity, Finite b) \<Rightarrow>
          (if b = 0 then NaN else if 0 < b then Infinity else MinusInfinity)
      | (MinusInfinity, Finite b) \<Rightarrow>
          (if b = 0 then NaN else if 0 < b then MinusInfinity else Infinity)
      | (Infinity, Infinity) \<Rightarrow> Infinity
      | (MinusInfinity, MinusInfinity) \<Rightarrow> Infinity
      | (Infinity, MinusInfinity) \<Rightarrow> MinusInfinity
      | (MinusInfinity, Infinity) \<Rightarrow> MinusInfinity)"

text \<open>\<^verbatim>\<open>x || d\<close> on a Number: \<^verbatim>\<open>NaN\<close> and zero are falsy.\<close>

definition or_default :: "number \<Rightarrow> number \<Rightarrow> number" where
  "or_default x d = (if x = NaN \<or> x = Finite 0 then d else x)"

text \<open>
  \<^verbatim>\<open>n += 1\<close> on a stored Number \<open>n\<close>: the sum is rounded, so from \<open>2^53\<close> on it can be
  \<open>n\<close> itself.
\<close>

definition plus_one :: "int \<Rightarrow> int" where
  "plus_one n = round_to_double (n + 1)"

subsection \<open>Documents\<close>

type_synonym oid = nat

record user =
  user_id :: oid
  first_name :: string
  last_name :: string
  email :: string
  password :: string

record blog =
  blog_id :: oid
  title :: string
  description :: "string option"
  author :: oid
  state :: string
  read_count :: int
  reading_time :: int
  tags :: "string list"
  body :: string
  createdAt :: int
  updatedAt :: int

record store =
  User :: "user list"
  Blog :: "blog list"
  scan_rank :: "blog \<Rightarrow> int"

datatype exn =
  TypeError
  | SyntaxError
  | ValidationError "string list"
  | DuplicateKeyError
  | MongoServerError

datatype failure = Status nat string | Next exn

text \<open>The fields selected by \<^verbatim>\<open>populate("author", "first_name last_name email")\<close>.\<close>

record author_view =
  av_id :: oid
  av_first_name :: string
  av_last_name :: string
  av_email :: string

type_synonym blog_view = "blog \<times> author_view option"

section \<open>Store operations\<close>

definition User_findById :: "oid \<Rightarrow> store \<Rightarrow> user option" where
  "User_findById i db = find (\<lambda>u. user_id u = i) (User db)"

definition Blog_findById :: "oid \<Rightarrow> store \<Rightarrow> blog option" where
  "Blog_findById i db = find (\<lambda>b. blog_id b = i) (Blog db)"

definition populate :: "store \<Rightarrow> blog \<Rightarrow> blog_view" where
  "populate db b =
     (b, map_option
           (\<lambda>u. \<lparr>av_id = user_id u, av_first_name = first_name u,
                 av_last_name = last_name u, av_email = email u\<rparr>)
           (User_findById (author b) db))"

text \<open>Writing a loaded document back: the stored document with the same id is replaced.\<close>

definition replace_blog :: "blog \<Rightarrow> store \<Rightarrow> store" where
  "replace_blog b db =
     db\<lparr>Blog := map (\<lambda>d. if blog_id d = blog_id b then b else d) (Blog db)\<rparr>"

section \<open>Reading time (\<^verbatim>\<open>blogSchema.pre("save")\<close>)\<close>

text \<open>
  The characters that \<^verbatim>\<open>trim\<close>, \<^verbatim>\<open>\s\<close> and \<^verbatim>\<open>parseInt\<close> take for whitespace, each as its
  UTF-8 bytes: U+0009 to U+000D, U+0020, U+00A0, U+1680, U+2000 to U+200A, U+2028,
  U+2029, U+202F, U+205F, U+3000 and U+FEFF.
\<close>

definition white_space :: "string list" where
  "white_space =
     [[CHR 0x09], [CHR 0x0A], [CHR 0x0B], [CHR 0x0C], [CHR 0x0D], [CHR 0x20],
      [CHR 0xC2, CHR 0xA0],
      [CHR 0xE1, CHR 0x9A, CHR 0x80],
      [CHR 0xE2, CHR 0x80, CHR 0x80], [CHR 0xE2, CHR 0x80, CHR 0x81],
      [CHR 0xE2, CHR 0x80, CHR 0x82], [CHR 0xE2, CHR 0x80, CHR 0x83],
      [CHR 0xE2, CHR 0x80, CHR 0x84], [CHR 0xE2, CHR 0x80, CHR 0x85],
      [CHR 0xE2, CHR 0x80, CHR 0x86], [CHR 0xE2, CHR 0x80, CHR 0x87],
      [CHR 0xE2, CHR 0x80, CHR 0x88], [CHR 0xE2, CHR 0x80, CHR 0x89],
      [CHR 0xE2, CHR 0x80, CHR 0x8A],
      [CHR 0xE2, CHR 0x80, CHR 0xA8], [CHR 0xE2, CHR 0x80, CHR 0xA9],
      [CHR 0xE2, CHR 0x80, CHR 0xAF],
      [CHR 0xE2, CHR 0x81, CHR 0x9F],
      [CHR 0xE3, CHR 0x80, CHR 0x80],
      [CHR 0xEF, CHR 0xBB, CHR 0xBF]]"

text \<open>
  The length of the first of the byte sequences \<open>ws\<close> that \<open>s\<close> starts with, \<open>0\<close> when
  it starts with none.
\<close>

definition match_len :: "string list \<Rightarrow> string \<Rightarrow> nat" where
  "match_len ws s =
     (case find (\<lambda>w. w \<noteq> [] \<and> take (length w) s = w) ws of
        None \<Rightarrow> 0
      | Some w \<Rightarrow> length w)"

text \<open>\<open>s\<close> without the longest run of such sequences at its start.\<close>

function drop_matches :: "string list \<Rightarrow> string \<Rightarrow> string" where
  "drop_matches ws s =
     (if match_len ws s = 0 then s else drop_matches ws (drop (match_len ws s) s))"
  by pat_completeness auto
termination
proof (relation "measure (\<lambda>(ws, s). length s)")
  show "wf (measure (\<lambda>(ws, s). length s))" by simp
next
  fix ws :: "string list" and s :: string
  assume "match_len ws s \<noteq> 0"
  then obtain w where "w \<noteq> []" and "take (length w) s = w" and "match_len ws s = length w"
    by (auto simp: match_len_def find_Some_iff split: option.splits)
  then have "s \<noteq> []" and "0 < match_len ws s"
    by auto
  then show "((ws, drop (match_len ws s) s), (ws, s)) \<in> measure (\<lambda>(ws, s). length s)"
    by (cases s) auto
qed

declare drop_matches.simps [simp del]

definition is_space_at :: "string \<Rightarrow> bool" where
  "is_space_at s \<longleftrightarrow> match_len white_space s \<noteq> 0"

definition drop_space :: "string \<Rightarrow> string" where
  "drop_space s = drop_matches white_space s"

text \<open>
  \<^verbatim>\<open>String.prototype.trim\<close>: the whitespace at the end is found on the reversed bytes.
\<close>

definition trim :: "string \<Rightarrow> string" where
  "trim s = rev (drop_matches (map rev white_space) (rev (drop_space s)))"

text \<open>
  \<^verbatim>\<open>s.split(/\s+/)\<close>: the pieces between maximal runs of whitespace. A string that
  starts or ends with whitespace gives an empty first or last piece, and the empty
  string gives the one piece \<open>''''\<close>.
\<close>

function split_ws :: "string \<Rightarrow> string list" where
  "split_ws [] = [[]]"
| "split_ws (c # cs) =
     (if is_space_at (c # cs) then [] # split_ws (drop_space (c # cs))
      else (case split_ws cs of
              [] \<Rightarrow> [[c]]
            | w # ws \<Rightarrow> (c # w) # ws))"
  by pat_completeness auto
termination
proof (relation "measure length")
  show "wf (measure length)" by simp
next
  fix c :: char and cs :: string
  assume "is_space_at (c # cs)"
  have shorter: "length (drop_matches ws s) \<le> length s" for ws s
  proof (induction ws s rule: drop_matches.induct)
    case (1 ws s)
    then show ?case
      by (subst drop_matches.simps) (auto intro: order_trans)
  qed
  from \<open>is_space_at (c # cs)\<close> have "0 < match_len white_space (c # cs)"
    by (simp add: is_space_at_def)
  then have "drop_space (c # cs) =
      drop_matches white_space (drop (match_len white_space (c # cs)) (c # cs))"
    unfolding drop_space_def by (subst drop_matches.simps) simp
  also have "length \<dots> \<le> length (drop (match_len white_space (c # cs)) (c # cs))"
    by (rule shorter)
  also have "\<dots> < length (c # cs)"
    using \<open>0 < match_len white_space (c # cs)\<close> by simp
  finally show "(drop_space (c # cs), c # cs) \<in> measure length"
    by simp
next
  fix c :: char and cs :: string
  show "(cs, c # cs) \<in> measure length" by simp
qed

definition wordCount :: "string \<Rightarrow> nat" where
  "wordCount b = length (split_ws (trim b))"

definition wordsPerMinute :: nat where
  "wordsPerMinute = 200"

text \<open>\<^verbatim>\<open>Math.ceil(wordCount / wordsPerMinute)\<close>.\<close>

definition compute_reading_time :: "string \<Rightarrow> int" where
  "compute_reading_time b =
     int ((wordCount b + (wordsPerMinute - 1)) div wordsPerMinute)"

text \<open>The hook; \<open>body_modified\<close> is \<^verbatim>\<open>this.isModified("body")\<close>.\<close>

definition pre_save :: "bool \<Rightarrow> blog \<Rightarrow> blog" where
  "pre_save body_modified b =
     (if body_modified then b\<lparr>reading_time := compute_reading_time (body b)\<rparr> else b)"

text \<open>
  \<^verbatim>\<open>blog.save()\<close> on a document that was loaded as \<open>loaded\<close> and is now \<open>b\<close>: a path
  counts as modified when its value differs from the loaded one. The hook runs; when
  nothing was modified nothing is written, otherwise the timestamp plugin sets
  \<open>updatedAt\<close> and the document is written back.
\<close>

definition save :: "int \<Rightarrow> blog \<Rightarrow> blog \<Rightarrow> store \<Rightarrow> blog \<times> store" where
  "save now loaded b db =
     (let b1 = pre_save (body b \<noteq> body loaded) b
      in if b1 = loaded then (b1, db)
         else (let b2 = b1\<lparr>updatedAt := now\<rparr> in (b2, replace_blog b2 db)))"

section \<open>Single-blog fetch (\<^verbatim>\<open>getBlog\<close>)\<close>

definition getBlog ::
  "user option \<Rightarrow> oid \<Rightarrow> int \<Rightarrow> store \<Rightarrow> (failure + blog_view) \<times> store" where
  "getBlog req_user i now db =
     (case Blog_findById i db of
        None \<Rightarrow> (Inl (Status 404 ''Blog not found''), db)
      | Some found \<Rightarrow>
          (let (blog, blog_author) = populate db found;
               proceed =
                 (let blog1 = blog\<lparr>read_count := plus_one (read_count blog)\<rparr>;
                      (blog2, db') = save now blog blog1 db
                  in (Inr (blog2, blog_author), db'))
           in if state blog \<noteq> ''published'' then
                (case req_user of
                   None \<Rightarrow> (Inl (Status 403 ''Access denied''), db)
                 | Some u \<Rightarrow>
                     (case blog_author of
                        None \<Rightarrow> (Inl (Next TypeError), db)
                      | Some a \<Rightarrow>
                          if av_id a \<noteq> user_id u
                          then (Inl (Status 403 ''Access denied''), db)
                          else proceed))
              else proceed))"

section \<open>Middleware (\<^verbatim>\<open>protect\<close>, \<^verbatim>\<open>optionalAuth\<close>) and the routes\<close>

text \<open>\<^verbatim>\<open>s.split(sep)\<close> for a one-character separator.\<close>

fun split_char :: "char \<Rightarrow> string \<Rightarrow> string list" where
  "split_char sep [] = [[]]"
| "split_char sep (c # cs) =
     (if c = sep then [] # split_char sep cs
      else (case split_char sep cs of
              [] \<Rightarrow> [[c]]
            | w # ws \<Rightarrow> (c # w) # ws))"

definition startsWith :: "string \<Rightarrow> string \<Rightarrow> bool" where
  "startsWith s p \<longleftrightarrow> take (length p) s = p"

text \<open>\<^verbatim>\<open>xs[i]\<close>, \<open>None\<close> for \<^verbatim>\<open>undefined\<close>.\<close>

definition at_index :: "'a list \<Rightarrow> nat \<Rightarrow> 'a option" where
  "at_index xs i = (if i < length xs then Some (xs ! i) else None)"

text \<open>
  The token both middlewares read from the \<^verbatim>\<open>Authorization\<close> header:
  \<^verbatim>\<open>authorization.split(" ")[1]\<close> when the header starts with \<^verbatim>\<open>Bearer\<close>.
\<close>

definition bearer_token :: "string option \<Rightarrow> string option" where
  "bearer_token authorization =
     (case authorization of
        None \<Rightarrow> None
      | Some h \<Rightarrow>
          if h \<noteq> [] \<and> startsWith h ''Bearer''
          then at_index (split_char CHR '' '' h) 1 else None)"

text \<open>
  \<^verbatim>\<open>jwt.verify(token, secret)\<close> belongs to a library: it is the parameter \<open>jwt_verify\<close>,
  which gives the \<^verbatim>\<open>id\<close> of the payload, or \<open>None\<close> where the library throws (a token
  that is malformed, wrongly signed or expired).
\<close>

definition protect ::
  "(string \<Rightarrow> oid option) \<Rightarrow> string option \<Rightarrow> store \<Rightarrow> failure + user" where
  "protect jwt_verify authorization db =
     (case bearer_token authorization of
        None \<Rightarrow> Inl (Status 401 ''Not authorized to access this route'')
      | Some token \<Rightarrow>
          if token = [] then Inl (Status 401 ''Not authorized to access this route'')
          else (case jwt_verify token of
                  None \<Rightarrow> Inl (Status 401 ''Token is invalid or expired'')
                | Some i \<Rightarrow>
                    (case User_findById i db of
                       None \<Rightarrow> Inl (Status 401 ''User not found'')
                     | Some u \<Rightarrow> Inr u)))"

text \<open>
  \<open>optionalAuth\<close> gives the value of \<^verbatim>\<open>req.user\<close> it leaves for the handler;
  \<^verbatim>\<open>undefined\<close> and \<^verbatim>\<open>null\<close> are both \<open>None\<close>. It never answers the request itself.
\<close>

definition optionalAuth ::
  "(string \<Rightarrow> oid option) \<Rightarrow> string option \<Rightarrow> store \<Rightarrow> user option" where
  "optionalAuth jwt_verify authorization db =
     (case authorization of
        None \<Rightarrow> None
      | Some h \<Rightarrow>
          if h \<noteq> [] \<and> startsWith h ''Bearer'' then
            (case at_index (split_char CHR '' '' h) 1 of
               None \<Rightarrow> None
             | Some token \<Rightarrow>
                 (case jwt_verify token of
                    None \<Rightarrow> None
                  | Some i \<Rightarrow> User_findById i db))
          else None)"

text \<open>\<^verbatim>\<open>router.get("/:id", optionalAuth, getBlog)\<close>.\<close>

definition route_getBlog ::
  "(string \<Rightarrow> oid option) \<Rightarrow> string option \<Rightarrow> oid \<Rightarrow> int \<Rightarrow> store
    \<Rightarrow> (failure + blog_view) \<times> store" where
  "route_getBlog jwt_verify authorization i now db =
     getBlog (optionalAuth jwt_verify authorization db) i now db"

section \<open>Signin (\<^verbatim>\<open>authController.signin\<close>)\<close>

text \<open>
  \<^verbatim>\<open>models/User.js\<close> is not part of the sources: \<^verbatim>\<open>user.comparePassword\<close> is the
  parameter \<open>comparePassword\<close>, and \<^verbatim>\<open>jwt.sign\<close> the parameter \<open>generateToken\<close>.
  A missing body field is \<open>None\<close>.
\<close>

definition truthy :: "string option \<Rightarrow> bool" where
  "truthy v \<longleftrightarrow> (case v of None \<Rightarrow> False | Some s \<Rightarrow> s \<noteq> [])"

definition User_findOne_email :: "string \<Rightarrow> store \<Rightarrow> user option" where
  "User_findOne_email e db = find (\<lambda>u. email u = e) (User db)"

record signin_data =
  sd_id :: oid
  sd_first_name :: string
  sd_last_name :: string
  sd_email :: string
  sd_token :: string

definition signin ::
  "(user \<Rightarrow> string \<Rightarrow> bool) \<Rightarrow> (oid \<Rightarrow> string) \<Rightarrow> string option \<Rightarrow> string option
    \<Rightarrow> store \<Rightarrow> failure + signin_data" where
  "signin comparePassword generateToken req_email req_password db =
     (if \<not> truthy req_email \<or> \<not> truthy req_password
      then Inl (Status 400 ''Please provide email and password'')
      else
        (case User_findOne_email (case req_email of Some e \<Rightarrow> e | None \<Rightarrow> []) db of
           None \<Rightarrow> Inl (Status 401 ''Invalid credentials'')
         | Some u \<Rightarrow>
             if \<not> comparePassword u (case req_password of Some p \<Rightarrow> p | None \<Rightarrow> [])
             then Inl (Status 401 ''Invalid credentials'')
             else Inr \<lparr>sd_id = user_id u, sd_first_name = first_name u,
                       sd_last_name = last_name u, sd_email = email u,
                       sd_token = generateToken (user_id u)\<rparr>))"

section \<open>Listings (\<^verbatim>\<open>getPublishedBlogs\<close>, \<^verbatim>\<open>getUserBlogs\<close>)\<close>

subsection \<open>Request parameters\<close>

record query_params =
  q_page :: "string option"
  q_limit :: "string option"
  q_author :: "string option"
  q_title :: "string option"
  q_tags :: "string option"
  q_order_by :: "string option"
  q_state :: "string option"

definition digit_value :: "char \<Rightarrow> nat option" where
  "digit_value c =
     (let n = (of_char c :: nat)
      in if 48 \<le> n \<and> n \<le> 57 then Some (n - 48)
         else if 97 \<le> n \<and> n \<le> 122 then Some (n - 87)
         else if 65 \<le> n \<and> n \<le> 90 then Some (n - 55)
         else None)"

definition is_digit :: "nat \<Rightarrow> char \<Rightarrow> bool" where
  "is_digit radix c \<longleftrightarrow> (case digit_value c of None \<Rightarrow> False | Some d \<Rightarrow> d < radix)"

definition digits_value :: "nat \<Rightarrow> string \<Rightarrow> int" where
  "digits_value radix ds =
     foldl (\<lambda>a c. a * int radix + (case digit_value c of None \<Rightarrow> 0 | Some d \<Rightarrow> int d)) 0 ds"

text \<open>
  \<^verbatim>\<open>parseInt(s)\<close> with no radix: leading whitespace is skipped, one sign is read, a
  \<^verbatim>\<open>0x\<close> prefix selects base 16, and the longest run of digits is read; its value,
  rounded to a double, is the result, and no digit gives \<^verbatim>\<open>NaN\<close>. A missing parameter
  is \<^verbatim>\<open>parseInt(undefined)\<close>, also \<^verbatim>\<open>NaN\<close>.
\<close>

definition parseInt :: "string option \<Rightarrow> number" where
  "parseInt v =
     (case v of
        None \<Rightarrow> NaN
      | Some s \<Rightarrow>
          (let s1 = drop_space s;
               (neg, s2) =
                 (case s1 of
                    [] \<Rightarrow> (False, [])
                  | c # r \<Rightarrow>
                      if c = CHR ''-'' then (True, r)
                      else if c = CHR ''+'' then (False, r)
                      else (False, s1));
               (radix, s3) =
                 (if take 2 s2 = ''0x'' \<or> take 2 s2 = ''0X''
                  then (16, drop 2 s2) else (10, s2));
               ds = takeWhile (is_digit radix) s3
           in if ds = [] then NaN
              else Number ((if neg then - 1 else 1) * digits_value radix ds)))"

text \<open>
  \<^verbatim>\<open>parseInt(req.query.page) || 1\<close>, \<^verbatim>\<open>parseInt(req.query.limit) || 20\<close> and
  \<^verbatim>\<open>(page - 1) * limit\<close>.
\<close>

definition page_of :: "query_params \<Rightarrow> number" where
  "page_of q = or_default (parseInt (q_page q)) (Finite 1)"

definition limit_of :: "query_params \<Rightarrow> number" where
  "limit_of q = or_default (parseInt (q_limit q)) (Finite 20)"

definition skip_of :: "query_params \<Rightarrow> number" where
  "skip_of q = times (minus_one (page_of q)) (limit_of q)"

text \<open>The ceiling of the exact quotient \<open>t / l\<close>.\<close>

definition ceil_div :: "int \<Rightarrow> int \<Rightarrow> int" where
  "ceil_div t l = - ((- t) div l)"

text \<open>
  \<^verbatim>\<open>Math.ceil(total / limit)\<close> for a count \<open>total\<close>. The quotient of the two doubles is
  rounded before the ceiling is taken; while the sizes of \<open>total\<close> and \<open>limit\<close> add up to
  less than \<open>2^53\<close> the rounding cannot reach an integer, and the result is the ceiling
  of the exact quotient, which is what the model takes throughout.
\<close>

definition ceil_quotient :: "nat \<Rightarrow> number \<Rightarrow> number" where
  "ceil_quotient t l =
     (case l of
        NaN \<Rightarrow> NaN
      | Infinity \<Rightarrow> Finite 0
      | MinusInfinity \<Rightarrow> Finite 0
      | Finite d \<Rightarrow>
          if d = 0 then (if t = 0 then NaN else Infinity)
          else Finite (ceil_div (int t) d))"

subsection \<open>The store's query engine\<close>

text \<open>
  A filter document is a record of the conditions the controllers can put into it;
  an absent condition is \<open>None\<close>. The \<open>title\<close> condition is a compiled regular
  expression, that is, its test.
\<close>

record blog_filter =
  f_state :: "string option"
  f_author :: "oid option"
  f_title :: "(string \<Rightarrow> bool) option"
  f_tags_in :: "string list option"

definition matches :: "blog_filter \<Rightarrow> blog \<Rightarrow> bool" where
  "matches f b \<longleftrightarrow>
     (case f_state f of None \<Rightarrow> True | Some s \<Rightarrow> state b = s) \<and>
     (case f_author f of None \<Rightarrow> True | Some a \<Rightarrow> author b = a) \<and>
     (case f_title f of None \<Rightarrow> True | Some t \<Rightarrow> t (title b)) \<and>
     (case f_tags_in f of None \<Rightarrow> True | Some l \<Rightarrow> list_ex (\<lambda>t. t \<in> set l) (tags b))"

definition field_of :: "string \<Rightarrow> blog \<Rightarrow> int" where
  "field_of k =
     (if k = ''read_count'' then read_count
      else if k = ''reading_time'' then reading_time
      else createdAt)"

text \<open>
  A sort document has at most one key, always with direction \<open>-1\<close>; \<open>None\<close> is the
  empty document \<^verbatim>\<open>{}\<close>. With no key the documents come in the store's own order
  (\<open>rank\<close>, the store's \<open>scan_rank\<close>: which index or scan serves the query is the
  store's choice); with a key they come in descending order of the key, documents
  with equal keys in the store's own order.
\<close>

definition apply_sort :: "(blog \<Rightarrow> int) \<Rightarrow> string option \<Rightarrow> blog list \<Rightarrow> blog list" where
  "apply_sort rank sortOption xs =
     (case sortOption of
        None \<Rightarrow> sort_key rank xs
      | Some k \<Rightarrow> sort_key (\<lambda>b. - field_of k b) (sort_key rank xs))"

text \<open>
  \<^verbatim>\<open>Blog.find(query).sort(sortOption).limit(limit).skip(skip)\<close>: filter, sort, skip,
  limit. The store refuses a skip or a limit that is no 64-bit integer, and a negative
  skip; the driver sends a negative limit as its absolute value, and a limit of \<open>0\<close> is
  no limit.
\<close>

definition Blog_find ::
  "blog_filter \<Rightarrow> string option \<Rightarrow> number \<Rightarrow> number \<Rightarrow> store \<Rightarrow> exn + blog list" where
  "Blog_find f sortOption limit skip db =
     (case (limit, skip) of
        (Finite l, Finite s) \<Rightarrow>
          if s < 0 \<or> 2 ^ 63 \<le> s \<or> 2 ^ 63 \<le> \<bar>l\<bar> then Inl MongoServerError
          else
            (let sorted_docs =
                   apply_sort (scan_rank db) sortOption (filter (matches f) (Blog db));
                 rest = drop (nat s) sorted_docs
             in Inr (if l = 0 then rest else take (nat \<bar>l\<bar>) rest))
      | _ \<Rightarrow> Inl MongoServerError)"

definition Blog_countDocuments :: "blog_filter \<Rightarrow> store \<Rightarrow> nat" where
  "Blog_countDocuments f db = length (filter (matches f) (Blog db))"

subsection \<open>The two listing handlers\<close>

record 'a listing =
  count :: nat
  total :: nat
  page :: number
  pages :: number
  data :: "'a list"

definition validSortFields :: "string list" where
  "validSortFields = [''read_count'', ''reading_time'', ''createdAt'']"

definition sortOption_of :: "query_params \<Rightarrow> string option" where
  "sortOption_of q =
     (if truthy (q_order_by q) then
        (case q_order_by q of
           None \<Rightarrow> None
         | Some k \<Rightarrow> if k \<in> set validSortFields then Some k else None)
      else Some ''createdAt'')"

text \<open>
  \<^verbatim>\<open>new RegExp(p, "i")\<close> is the parameter \<open>RegExp_i\<close>: the test of the compiled
  expression, or \<open>None\<close> where the constructor throws a \<^verbatim>\<open>SyntaxError\<close>.
\<close>

definition User_findOne_name :: "(string \<Rightarrow> bool) \<Rightarrow> store \<Rightarrow> user option" where
  "User_findOne_name re db = find (\<lambda>u. re (first_name u) \<or> re (last_name u)) (User db)"

definition published_query ::
  "(string \<Rightarrow> (string \<Rightarrow> bool) option) \<Rightarrow> query_params \<Rightarrow> store \<Rightarrow> exn + blog_filter" where
  "published_query RegExp_i q db =
     (let query0 = \<lparr>f_state = Some ''published'', f_author = None,
                     f_title = None, f_tags_in = None\<rparr>;
          with_author =
            (if truthy (q_author q) then
               (case RegExp_i (case q_author q of Some a \<Rightarrow> a | None \<Rightarrow> []) of
                  None \<Rightarrow> Inl SyntaxError
                | Some re \<Rightarrow>
                    (case User_findOne_name re db of
                       None \<Rightarrow> Inr query0
                     | Some a \<Rightarrow> Inr (query0\<lparr>f_author := Some (user_id a)\<rparr>)))
             else Inr query0)
      in case with_author of
           Inl e \<Rightarrow> Inl e
         | Inr query1 \<Rightarrow>
             (let with_title =
                    (if truthy (q_title q) then
                       (case RegExp_i (case q_title q of Some t \<Rightarrow> t | None \<Rightarrow> []) of
                          None \<Rightarrow> Inl SyntaxError
                        | Some re \<Rightarrow> Inr (query1\<lparr>f_title := Some re\<rparr>))
                     else Inr query1)
              in case with_title of
                   Inl e \<Rightarrow> Inl e
                 | Inr query2 \<Rightarrow>
                     Inr (if truthy (q_tags q)
                          then query2\<lparr>f_tags_in :=
                                 Some (split_char CHR '','' (case q_tags q of Some t \<Rightarrow> t | None \<Rightarrow> []))\<rparr>
                          else query2)))"

definition getPublishedBlogs ::
  "(string \<Rightarrow> (string \<Rightarrow> bool) option) \<Rightarrow> query_params \<Rightarrow> store
    \<Rightarrow> (failure + blog_view listing) \<times> store" where
  "getPublishedBlogs RegExp_i q db =
     (let page = page_of q; limit = limit_of q; skip = skip_of q
      in case published_query RegExp_i q db of
           Inl e \<Rightarrow> (Inl (Next e), db)
         | Inr query \<Rightarrow>
             (case Blog_find query (sortOption_of q) limit skip db of
                Inl e \<Rightarrow> (Inl (Next e), db)
              | Inr found \<Rightarrow>
                  (let blogs = map (populate db) found;
                       total = Blog_countDocuments query db
                   in (Inr \<lparr>count = length blogs, total = total, page = page,
                            pages = ceil_quotient total limit, data = blogs\<rparr>, db))))"

definition getUserBlogs ::
  "user \<Rightarrow> query_params \<Rightarrow> store \<Rightarrow> (failure + blog listing) \<times> store" where
  "getUserBlogs req_user q db =
     (let page = page_of q; limit = limit_of q; skip = skip_of q;
          query0 = \<lparr>f_state = None, f_author = Some (user_id req_user),
                     f_title = None, f_tags_in = None\<rparr>;
          query = (if truthy (q_state q) then query0\<lparr>f_state := q_state q\<rparr> else query0)
      in case Blog_find query (Some ''createdAt'') limit skip db of
           Inl e \<Rightarrow> (Inl (Next e), db)
         | Inr blogs \<Rightarrow>
             (let total = Blog_countDocuments query db
              in (Inr \<lparr>count = length blogs, total = total, page = page,
                       pages = ceil_quotient total limit, data = blogs\<rparr>, db)))"

text \<open>
  \<^verbatim>\<open>router.get("/", getPublishedBlogs)\<close>: no middleware stands before the public
  listing, so the \<^verbatim>\<open>Authorization\<close> header of the request is never read.
\<close>

definition route_getPublishedBlogs ::
  "(string \<Rightarrow> (string \<Rightarrow> bool) option) \<Rightarrow> string option \<Rightarrow> query_params \<Rightarrow> store
    \<Rightarrow> (failure + blog_view listing) \<times> store" where
  "route_getPublishedBlogs RegExp_i authorization q db = getPublishedBlogs RegExp_i q db"

section \<open>Creating and changing blogs\<close>

subsection \<open>\<^verbatim>\<open>createBlog\<close>\<close>

record create_body =
  c_title :: "string option"
  c_description :: "string option"
  c_tags :: "string list option"
  c_body :: "string option"

text \<open>
  The paths of a document that fail their \<^verbatim>\<open>required\<close> validators; the \<^verbatim>\<open>trim\<close>
  setter of \<open>title\<close> has run before.
\<close>

definition required_failures :: "string option \<Rightarrow> string option \<Rightarrow> string list" where
  "required_failures t b =
     (if truthy (map_option trim t) then [] else [''title'']) @
     (if truthy b then [] else [''body''])"

text \<open>
  \<^verbatim>\<open>Blog.create\<close>: the schema's setters and defaults, validation, the \<^verbatim>\<open>pre("save")\<close>
  hook on a new document (whose \<open>body\<close> counts as modified), the timestamps, and the
  insertion, which the unique index on \<open>title\<close> can refuse. \<open>new_id\<close> is the ObjectId
  the driver generates.
\<close>

definition Blog_create ::
  "oid \<Rightarrow> int \<Rightarrow> create_body \<Rightarrow> oid \<Rightarrow> store \<Rightarrow> exn + blog \<times> store" where
  "Blog_create new_id now c author_id db =
     (case required_failures (c_title c) (c_body c) of
        p # ps \<Rightarrow> Inl (ValidationError (p # ps))
      | [] \<Rightarrow>
          (let doc = pre_save True
                 \<lparr>blog_id = new_id,
                  title = trim (case c_title c of Some t \<Rightarrow> t | None \<Rightarrow> []),
                  description = map_option trim (c_description c),
                  author = author_id,
                  state = ''draft'',
                  read_count = 0,
                  reading_time = 0,
                  tags = map trim (case c_tags c of Some ts \<Rightarrow> ts | None \<Rightarrow> []),
                  body = (case c_body c of Some b \<Rightarrow> b | None \<Rightarrow> []),
                  createdAt = now,
                  updatedAt = now\<rparr>
           in if list_ex (\<lambda>d. title d = title doc) (Blog db) then Inl DuplicateKeyError
              else Inr (doc, db\<lparr>Blog := Blog db @ [doc]\<rparr>)))"

definition createBlog ::
  "user \<Rightarrow> create_body \<Rightarrow> oid \<Rightarrow> int \<Rightarrow> store \<Rightarrow> (failure + blog) \<times> store" where
  "createBlog req_user c new_id now db =
     (case Blog_create new_id now c (user_id req_user) db of
        Inl e \<Rightarrow> (Inl (Next e), db)
      | Inr (blog, db') \<Rightarrow> (Inr blog, db'))"

subsection \<open>\<^verbatim>\<open>updateBlog\<close>\<close>

text \<open>
  The request body of an update, as the schema's strict mode keeps it: one optional
  value for each path of the schema.
\<close>

record patch =
  p_title :: "string option"
  p_description :: "string option"
  p_author :: "oid option"
  p_state :: "string option"
  p_read_count :: "int option"
  p_reading_time :: "int option"
  p_tags :: "string list option"
  p_body :: "string option"

definition state_enum :: "string list" where
  "state_enum = [''draft'', ''published'']"

text \<open>The paths of an update that fail the validators run by \<^verbatim>\<open>runValidators: true\<close>.\<close>

definition update_failures :: "patch \<Rightarrow> string list" where
  "update_failures p =
     (case p_title p of None \<Rightarrow> [] | Some t \<Rightarrow> if trim t = [] then [''title''] else []) @
     (case p_state p of None \<Rightarrow> [] | Some s \<Rightarrow> if s \<in> set state_enum then [] else [''state'']) @
     (case p_body p of None \<Rightarrow> [] | Some b \<Rightarrow> if b = [] then [''body''] else [])"

definition apply_patch :: "int \<Rightarrow> patch \<Rightarrow> blog \<Rightarrow> blog" where
  "apply_patch now p b =
     b\<lparr>title := (case p_title p of None \<Rightarrow> title b | Some t \<Rightarrow> trim t),
       description := (case p_description p of None \<Rightarrow> description b | Some d \<Rightarrow> Some (trim d)),
       author := (case p_author p of None \<Rightarrow> author b | Some a \<Rightarrow> a),
       state := (case p_state p of None \<Rightarrow> state b | Some s \<Rightarrow> s),
       read_count := (case p_read_count p of None \<Rightarrow> read_count b | Some n \<Rightarrow> n),
       reading_time := (case p_reading_time p of None \<Rightarrow> reading_time b | Some n \<Rightarrow> n),
       tags := (case p_tags p of None \<Rightarrow> tags b | Some ts \<Rightarrow> map trim ts),
       body := (case p_body p of None \<Rightarrow> body b | Some t \<Rightarrow> t),
       updatedAt := now\<rparr>"

text \<open>
  \<^verbatim>\<open>Blog.findByIdAndUpdate(id, update, {new: true, runValidators: true})\<close>: the update
  is validated, then written by the store in one step; the result is the document
  after the update, or \<open>None\<close> (\<^verbatim>\<open>null\<close>) when no document has the id. It is a query, not
  a \<^verbatim>\<open>save\<close>: the \<^verbatim>\<open>pre("save")\<close> hook is not run.
\<close>

definition Blog_findByIdAndUpdate ::
  "oid \<Rightarrow> patch \<Rightarrow> int \<Rightarrow> store \<Rightarrow> exn + blog option \<times> store" where
  "Blog_findByIdAndUpdate i p now db =
     (case update_failures p of
        f # fs \<Rightarrow> Inl (ValidationError (f # fs))
      | [] \<Rightarrow>
          (case Blog_findById i db of
             None \<Rightarrow> Inr (None, db)
           | Some b \<Rightarrow>
               (let b' = apply_patch now p b
                in if list_ex (\<lambda>d. blog_id d \<noteq> i \<and> title d = title b') (Blog db)
                   then Inl DuplicateKeyError
                   else Inr (Some b', replace_blog b' db))))"

definition updateBlog ::
  "user \<Rightarrow> oid \<Rightarrow> patch \<Rightarrow> int \<Rightarrow> store \<Rightarrow> (failure + blog option) \<times> store" where
  "updateBlog req_user i req_body now db =
     (case Blog_findById i db of
        None \<Rightarrow> (Inl (Status 404 ''Blog not found''), db)
      | Some blog \<Rightarrow>
          if author blog \<noteq> user_id req_user
          then (Inl (Status 403 ''Not authorized to update this blog''), db)
          else (case Blog_findByIdAndUpdate i req_body now db of
                  Inl e \<Rightarrow> (Inl (Next e), db)
                | Inr (blog', db') \<Rightarrow> (Inr blog', db')))"

subsection \<open>\<^verbatim>\<open>updateBlogState\<close>\<close>

text \<open>The success payload: the message \<^verbatim>\<open>`Blog ${state} successfully`\<close> and the blog.\<close>

definition updateBlogState ::
  "user \<Rightarrow> oid \<Rightarrow> string option \<Rightarrow> int \<Rightarrow> store \<Rightarrow> (failure + string \<times> blog) \<times> store" where
  "updateBlogState req_user i req_state now db =
     (if req_state \<notin> set [Some ''draft'', Some ''published'']
      then (Inl (Status 400 ''Invalid state. Must be either draft or published''), db)
      else
        (case Blog_findById i db of
           None \<Rightarrow> (Inl (Status 404 ''Blog not found''), db)
         | Some blog \<Rightarrow>
             if author blog \<noteq> user_id req_user
             then (Inl (Status 403 ''Not authorized to update this blog''), db)
             else
               (let st = (case req_state of Some s \<Rightarrow> s | None \<Rightarrow> []);
                    (blog', db') = save now blog (blog\<lparr>state := st\<rparr>) db
                in (Inr (''Blog '' @ st @ '' successfully'', blog'), db'))))"

section \<open>Sequences of requests and an example store\<close>

text \<open>
  Fetches of one blog served one after the other, each by its own requester at its own
  time; every fetch sees the store the one before it left.
\<close>

fun getBlog_seq ::
  "(user option \<times> int) list \<Rightarrow> oid \<Rightarrow> store \<Rightarrow> (failure + blog_view) list \<times> store" where
  "getBlog_seq [] i db = ([], db)"
| "getBlog_seq ((req_user, now) # rest) i db =
     (let (resp, db1) = getBlog req_user i now db;
          (resps, db2) = getBlog_seq rest i db1
      in (resp # resps, db2))"

text \<open>The read count a response shows, when the response is a blog.\<close>

definition shown_read_count :: "failure + blog_view \<Rightarrow> int option" where
  "shown_read_count r = (case r of Inl _ \<Rightarrow> None | Inr (b, _) \<Rightarrow> Some (read_count b))"

text \<open>Whether a response is a success.\<close>

definition answered :: "failure + blog_view \<Rightarrow> bool" where
  "answered r \<longleftrightarrow> (case r of Inl _ \<Rightarrow> False | Inr _ \<Rightarrow> True)"

text \<open>
  An example store after the test suite's: its two users, who share a last name, a
  published blog and a draft of the first user, and a published blog of the second.
  It answers a query that asks for no order in the order of insertion.
\<close>

definition test_user :: user where
  "test_user = \<lparr>user_id = 1, first_name = ''Test'', last_name = ''User'',
                 email = ''test@test.com'', password = ''hash-1''\<rparr>"

definition second_user :: user where
  "second_user = \<lparr>user_id = 2, first_name = ''Second'', last_name = ''User'',
                   email = ''second@test.com'', password = ''hash-2''\<rparr>"

definition published_blog :: blog where
  "published_blog =
     \<lparr>blog_id = 10, title = ''Published Blog'', description = None, author = 1,
      state = ''published'', read_count = 0, reading_time = 1, tags = [''published''],
      body = ''This is a published blog'', createdAt = 100, updatedAt = 100\<rparr>"

definition draft_blog :: blog where
  "draft_blog =
     \<lparr>blog_id = 11, title = ''Draft Blog'', description = None, author = 1,
      state = ''draft'', read_count = 0, reading_time = 1, tags = [],
      body = ''This is a draft blog'', createdAt = 200, updatedAt = 200\<rparr>"

definition second_blog :: blog where
  "second_blog =
     \<lparr>blog_id = 12, title = ''Second Blog'', description = None, author = 2,
      state = ''published'', read_count = 0, reading_time = 1, tags = [],
      body = ''Written by the second user'', createdAt = 300, updatedAt = 300\<rparr>"

definition test_db :: store where
  "test_db = \<lparr>User = [test_user, second_user],
               Blog = [published_blog, draft_blog, second_blog],
               scan_rank = (\<lambda>b. 0)\<rparr>"

text \<open>A token check that accepts one token, of the first user.\<close>

definition test_jwt :: "string \<Rightarrow> oid option" where
  "test_jwt t = (if t = ''valid.token'' then Some 1 else None)"

text \<open>A password check that compares with the stored value.\<close>

definition test_compare :: "user \<Rightarrow> string \<Rightarrow> bool" where
  "test_compare u p \<longleftrightarrow> password u = p"

text \<open>The ids of the blogs a listing answers with, in the order of the answer.\<close>

definition listed_ids :: "(failure + blog_view listing) \<times> store \<Rightarrow> oid list option" where
  "listed_ids r =
     (case fst r of Inl _ \<Rightarrow> None | Inr l \<Rightarrow> Some (map (\<lambda>v. blog_id (fst v)) (data l)))"

text \<open>
  What \<^verbatim>\<open>new RegExp(p, "i")\<close> tests on ASCII text when \<open>p\<close> is ASCII and has no
  character that is special in a regular expression: that the string contains \<open>p\<close>,
  letter case aside.
\<close>

definition to_lower :: "char \<Rightarrow> char" where
  "to_lower c =
     (let n = (of_char c :: nat) in if 65 \<le> n \<and> n \<le> 90 then char_of (n + 32) else c)"

definition icontains :: "string \<Rightarrow> string \<Rightarrow> bool" where
  "icontains p s \<longleftrightarrow>
     list_ex (\<lambda>k. take (length p) (drop k (map to_lower s)) = map to_lower p)
       [0..<Suc (length s)]"

definition literal_RegExp_i :: "string \<Rightarrow> (string \<Rightarrow> bool) option" where
  "literal_RegExp_i p = Some (icontains p)"

text \<open>A request with no query parameter, and the requests and bodies of the examples.\<close>

definition no_params :: query_params where
  "no_params = \<lparr>q_page = None, q_limit = None, q_author = None, q_title = None,
                 q_tags = None, q_order_by = None, q_state = None\<rparr>"

definition long_body :: string where
  "long_body = concat (replicate 201 ''a '')"

definition empty_patch :: patch where
  "empty_patch = \<lparr>p_title = None, p_description = None, p_author = None, p_state = None,
                   p_read_count = None, p_reading_time = None, p_tags = None,
                   p_body = None\<rparr>"

section \<open>Facts about numbers, whitespace and the store\<close>

lemmas fixtures = test_user_def second_user_def published_blog_def draft_blog_def
  second_blog_def test_db_def

lemma round_to_double_exact: "\<bar>n\<bar> \<le> 2 ^ 53 \<Longrightarrow> round_to_double n = n"
  by (simp add: round_to_double_def)

lemma plus_one_exact: "\<bar>n + 1\<bar> \<le> 2 ^ 53 \<Longrightarrow> plus_one n = n + 1"
  by (simp add: plus_one_def round_to_double_exact)

lemma Number_exact: "\<bar>n\<bar> \<le> 2 ^ 53 \<Longrightarrow> Number n = Finite n"
proof -
  assume n: "\<bar>n\<bar> \<le> 2 ^ 53"
  have "(2::int) ^ 53 < 2 ^ 1024"
    by (rule power_strict_increasing) simp_all
  with n have "n < 2 ^ 1024" and "- (2 ^ 1024) < n"
    by linarith+
  with n show ?thesis
    by (simp add: Number_def round_to_double_exact Let_def)
qed

text \<open>The next two equations let evaluation look at the first byte before it matches.\<close>

lemma is_space_at_code [code]:
  "is_space_at s =
     (case s of
        [] \<Rightarrow> False
      | c # cs \<Rightarrow>
          c \<in> set [CHR 0x09, CHR 0x0A, CHR 0x0B, CHR 0x0C, CHR 0x0D, CHR 0x20,
                    CHR 0xC2, CHR 0xE1, CHR 0xE2, CHR 0xE3, CHR 0xEF] \<and>
          match_len white_space s \<noteq> 0)"
proof (cases s)
  case Nil
  then show ?thesis
    by (simp add: is_space_at_def match_len_def white_space_def)
next
  case (Cons c cs)
  show ?thesis
  proof (cases "c \<in> set [CHR 0x09, CHR 0x0A, CHR 0x0B, CHR 0x0C, CHR 0x0D, CHR 0x20,
                    CHR 0xC2, CHR 0xE1, CHR 0xE2, CHR 0xE3, CHR 0xEF]")
    case True
    then show ?thesis
      unfolding Cons is_space_at_def by simp
  next
    case False
    then have "match_len white_space (c # cs) = 0"
      by (simp add: match_len_def white_space_def)
    with False show ?thesis
      unfolding Cons is_space_at_def by simp
  qed
qed

lemma drop_space_code [code]:
  "drop_space s =
     (if is_space_at s then drop_space (drop (match_len white_space s) s) else s)"
  unfolding drop_space_def is_space_at_def
  by (subst drop_matches.simps) simp

lemma find_replace:
  "find (\<lambda>b. blog_id b = blog_id b') xs = Some b \<Longrightarrow>
   find (\<lambda>b. blog_id b = blog_id b')
     (map (\<lambda>d. if blog_id d = blog_id b' then b' else d) xs) = Some b'"
  by (induction xs) (auto split: if_splits)

lemma findById_replace:
  "Blog_findById i db = Some b \<Longrightarrow> blog_id b' = i \<Longrightarrow>
   Blog_findById i (replace_blog b' db) = Some b'"
  unfolding Blog_findById_def replace_blog_def using find_replace [of b' "Blog db" b] by auto

lemma findById_id: "Blog_findById i db = Some b \<Longrightarrow> blog_id b = i"
  unfolding Blog_findById_def by (auto simp: find_Some_iff)

lemma User_findById_id: "User_findById a db = Some u \<Longrightarrow> user_id u = a"
  unfolding User_findById_def by (auto simp: find_Some_iff)

lemma User_replace [simp]: "User (replace_blog b db) = User db"
  by (simp add: replace_blog_def)

lemma User_findById_replace [simp]:
  "User_findById a (replace_blog b db) = User_findById a db"
  by (simp add: User_findById_def)

lemma save_read_count:
  assumes "\<bar>read_count b + 1\<bar> \<le> 2 ^ 53"
  shows "save now b (b\<lparr>read_count := plus_one (read_count b)\<rparr>) db =
     (b\<lparr>read_count := read_count b + 1, updatedAt := now\<rparr>,
      replace_blog (b\<lparr>read_count := read_count b + 1, updatedAt := now\<rparr>) db)"
proof -
  have "b\<lparr>read_count := read_count b + 1\<rparr> \<noteq> b"
  proof
    assume "b\<lparr>read_count := read_count b + 1\<rparr> = b"
    then have "read_count (b\<lparr>read_count := read_count b + 1\<rparr>) = read_count b"
      by simp
    then show False by simp
  qed
  then show ?thesis
    by (simp add: save_def pre_save_def Let_def plus_one_exact [OF assms])
qed

lemma save_state:
  "save now b (b\<lparr>state := s\<rparr>) db =
     (if state b = s then (b, db)
      else (b\<lparr>state := s, updatedAt := now\<rparr>,
            replace_blog (b\<lparr>state := s, updatedAt := now\<rparr>) db))"
proof (cases "state b = s")
  case True
  then have "b\<lparr>state := s\<rparr> = b" by auto
  then show ?thesis
    using True by (simp add: save_def pre_save_def Let_def)
next
  case False
  have "b\<lparr>state := s\<rparr> \<noteq> b"
  proof
    assume "b\<lparr>state := s\<rparr> = b"
    then have "state (b\<lparr>state := s\<rparr>) = state b"
      by simp
    with False show False by simp
  qed
  then show ?thesis
    using False by (simp add: save_def pre_save_def Let_def)
qed

lemma fst_populate [simp]: "fst (populate db b) = b"
  by (simp add: populate_def)

lemma set_apply_sort [simp]: "set (apply_sort rank so xs) = set xs"
  by (simp add: apply_sort_def split: option.splits)

lemma length_apply_sort [simp]: "length (apply_sort rank so xs) = length xs"
  by (simp add: apply_sort_def split: option.splits)

text \<open>
  What \<^verbatim>\<open>Blog.find\<close> answers when it answers, and the limit of a listing, which is never
  \<open>0\<close>.
\<close>

lemma Blog_find_window:
  assumes "Blog_find f so limit skip db = Inr found"
  shows "\<exists>l s. limit = Finite l \<and> skip = Finite s \<and> 0 \<le> s \<and>
           found = (if l = 0 then drop (nat s) (apply_sort (scan_rank db) so (filter (matches f) (Blog db)))
                    else take (nat \<bar>l\<bar>)
                           (drop (nat s) (apply_sort (scan_rank db) so (filter (matches f) (Blog db)))))"
  using assms
  by (auto simp: Blog_find_def Let_def split: number.splits if_splits)

lemma limit_of_not_zero: "limit_of q \<noteq> Finite 0 \<and> limit_of q \<noteq> NaN"
  by (simp add: limit_of_def or_default_def)

section \<open>Who may read a blog\<close>

text \<open>
  For a stored blog whose author is a stored user the fetch follows the policy: it
  answers with the blog, its read count raised, and the author's name and email,
  exactly when the blog is published or the requester is its author; otherwise it
  answers 403 and leaves the store as it was. An id under which nothing is stored gives
  404.
\<close>

lemma getBlog_policy_for_stored_author:
  assumes "Blog_findById i db = Some b" and "User_findById (author b) db = Some a"
  shows "(if state b = ''published'' \<or> (\<exists>u. req = Some u \<and> user_id u = author b)
          then getBlog req i now db =
                 (Inr (fst (save now b (b\<lparr>read_count := plus_one (read_count b)\<rparr>) db),
                       Some \<lparr>av_id = user_id a, av_first_name = first_name a,
                             av_last_name = last_name a, av_email = email a\<rparr>),
                  snd (save now b (b\<lparr>read_count := plus_one (read_count b)\<rparr>) db))
          else getBlog req i now db = (Inl (Status 403 ''Access denied''), db)) \<and>
         (\<forall>j. Blog_findById j db = None \<longrightarrow>
            getBlog req j now db = (Inl (Status 404 ''Blog not found''), db))"
  using assms
  by (auto simp: getBlog_def populate_def Let_def case_prod_beta
        dest: User_findById_id split: option.splits)

text \<open>
  Claim C1. The claim asks for 403 whenever a draft is requested by anyone but its
  author. The code does not do this for a draft whose author is no stored user, which
  the update route can produce: the author of the draft sets its \<open>author\<close> to an id that
  no user has, and the second user, signed in, then asks for the draft. The ownership
  test reads \<^verbatim>\<open>blog.author._id\<close> from the populated author, which is \<^verbatim>\<open>null\<close>, and the
  request ends in a \<^verbatim>\<open>TypeError\<close> handed to \<^verbatim>\<open>next\<close>. Before the update the same request
  is answered 403.
\<close>

theorem getBlog_orphaned_draft_throws:
  "User_findById 99 test_db = None \<and>
   fst (getBlog (Some second_user) 11 6 test_db) = Inl (Status 403 ''Access denied'') \<and>
   fst (getBlog (Some second_user) 11 6
          (snd (updateBlog test_user 11 (empty_patch\<lparr>p_author := Some 99\<rparr>) 5 test_db))) =
     Inl (Next TypeError)"
  by code_simp

section \<open>Updating a blog\<close>

lemma updateBlog_by_author:
  assumes "Blog_findById i db = Some b" and "author b = user_id u"
  shows "updateBlog u i p now db =
           (case update_failures p of
              f # fs \<Rightarrow> (Inl (Next (ValidationError (f # fs))), db)
            | [] \<Rightarrow>
                if list_ex (\<lambda>d. blog_id d \<noteq> i \<and> title d = title (apply_patch now p b)) (Blog db)
                then (Inl (Next DuplicateKeyError), db)
                else (Inr (Some (apply_patch now p b)), replace_blog (apply_patch now p b) db))"
  using assms
  by (simp add: updateBlog_def Blog_findByIdAndUpdate_def Let_def split: list.splits)

text \<open>
  A new blog takes its author from the signed-in user and starts as a draft with read
  count \<open>0\<close>, whatever the request body holds; its reading time comes from the hook.
\<close>

lemma createBlog_computes_reading_time:
  assumes "fst (createBlog u c new_id now db) = Inr b"
  shows "reading_time b = compute_reading_time (body b) \<and> state b = ''draft'' \<and>
         read_count b = 0 \<and> author b = user_id u"
  using assms
  by (auto simp: createBlog_def Blog_create_def pre_save_def Let_def
      split: sum.splits list.splits if_splits)

text \<open>
  Claim C2. The claim asks that an update by the author leaves \<open>author\<close>, \<open>read_count\<close>
  and \<open>state\<close> as they were, also when the patch has values for them. The code does not
  do this: it hands the request body to the store as it is. Here the author of the draft
  (author 1, read count 0, state \<open>draft\<close>) sends a patch that names author 2, state
  \<open>published\<close> and read count 100, and all three are stored.
\<close>

theorem update_overwrites_protected_fields:
  "map_option (\<lambda>b. (author b, read_count b, state b)) (Blog_findById 11 test_db) =
     Some (1, 0, ''draft'') \<and>
   map_option (\<lambda>b. (author b, read_count b, state b))
     (Blog_findById 11
        (snd (updateBlog test_user 11
                (empty_patch\<lparr>p_author := Some 2, p_state := Some ''published'',
                              p_read_count := Some 100\<rparr>) 5 test_db))) =
     Some (2, 100, ''published'')"
  by code_simp

section \<open>Reading time after an update\<close>

text \<open>
  An update never runs the hook: the reading time after an update is the one the patch
  gives, or else the old one, whatever the patch does to the body.
\<close>

lemma updateBlog_never_recomputes:
  assumes "Blog_findById i db = Some b" and "author b = user_id u"
    and "fst (updateBlog u i p now db) = Inr (Some b')"
  shows "reading_time b' = (case p_reading_time p of None \<Rightarrow> reading_time b | Some n \<Rightarrow> n) \<and>
         body b' = (case p_body p of None \<Rightarrow> body b | Some t \<Rightarrow> t)"
proof -
  from assms(3) have "b' = apply_patch now p b"
    unfolding updateBlog_by_author [OF assms(1,2)]
    by (auto split: list.splits if_splits)
  then show ?thesis
    by (simp add: apply_patch_def)
qed

text \<open>
  A body of whitespace only counts as one word, since the empty string splits into one
  piece.
\<close>

lemma blank_body_counts_one_word:
  "wordCount ''   '' = 1 \<and> compute_reading_time ''   '' = 1"
  by code_simp

text \<open>
  Claim C3. The claim asks that the stored reading time is the number of words of the
  stored body over 200, rounded up, after an update of the body too. The code does not
  do this: the author of the draft (five words, reading time 1) replaces its body by
  one of 201 words, for which the hook would compute 2, and the stored reading time is
  still 1.
\<close>

theorem update_leaves_reading_time_stale:
  "map_option (\<lambda>b. (reading_time b, compute_reading_time (body b)))
     (Blog_findById 11 test_db) = Some (1, 1) \<and>
   map_option (\<lambda>b. (reading_time b, compute_reading_time (body b)))
     (Blog_findById 11
        (snd (updateBlog test_user 11 (empty_patch\<lparr>p_body := Some long_body\<rparr>) 5 test_db))) =
     Some (1, 2)"
  by code_simp

section \<open>The read count\<close>

lemma getBlog_step:
  assumes "Blog_findById i db = Some b" and "\<bar>read_count b + 1\<bar> \<le> 2 ^ 53"
  shows "(\<exists>e. getBlog req i now db = (Inl e, db)) \<or>
         (\<exists>a. getBlog req i now db =
            (Inr (b\<lparr>read_count := read_count b + 1, updatedAt := now\<rparr>, a),
             replace_blog (b\<lparr>read_count := read_count b + 1, updatedAt := now\<rparr>) db))"
  using assms
  by (auto simp: getBlog_def populate_def save_read_count Let_def split: option.splits)

lemma getBlog_published:
  assumes "Blog_findById i db = Some b" and "state b = ''published''"
  shows "\<exists>v. fst (getBlog req i now db) = Inr v"
  using assms
  by (auto simp: getBlog_def populate_def Let_def case_prod_beta)

text \<open>At \<open>2^53\<close> the sum \<open>n + 1\<close> is \<open>n\<close> again: the fetch is answered and nothing is written.\<close>

lemma read_count_stops_at_2_53:
  "plus_one (2 ^ 53) = 2 ^ 53 \<and>
   map_option read_count
     (Blog_findById 10
        (snd (getBlog None 10 7
                (replace_blog (published_blog\<lparr>read_count := 2 ^ 53\<rparr>) test_db)))) =
     Some (2 ^ 53)"
  by code_simp

text \<open>
  Claim C4. Let the store hold a blog whose read count \<open>n\<close> is at least \<open>-2^53\<close>, and let
  \<open>N\<close> fetches of it follow one another, by any requesters at any times, with
  \<open>n + N \<le> 2^53\<close> (within this range a Number counts exactly). Then the blog is still
  stored afterwards and its read count is \<open>n\<close> plus the number of fetches that were
  answered with the blog; the \<open>k\<close>-th of those shows \<open>n + k\<close>. Every fetch of a published
  blog is answered, so that \<open>N\<close> fetches of a published blog with read count \<open>0\<close> leave
  read count \<open>N\<close>. Nothing in a fetch looks at who asked before or when, so no fetch is
  left out of the count.
\<close>

theorem getBlog_counts_every_fetch:
  assumes "Blog_findById i db = Some b" and "- (2 ^ 53) \<le> read_count b"
    and "read_count b + int (length reqs) \<le> 2 ^ 53"
  shows "(\<exists>b'. Blog_findById i (snd (getBlog_seq reqs i db)) = Some b' \<and>
            state b' = state b \<and>
            read_count b' =
              read_count b + int (length (filter answered (fst (getBlog_seq reqs i db))))) \<and>
         map shown_read_count (filter answered (fst (getBlog_seq reqs i db))) =
           map (\<lambda>k. Some (read_count b + 1 + int k))
             [0..<length (filter answered (fst (getBlog_seq reqs i db)))] \<and>
         length (fst (getBlog_seq reqs i db)) = length reqs \<and>
         (state b = ''published'' \<longrightarrow>
            filter answered (fst (getBlog_seq reqs i db)) = fst (getBlog_seq reqs i db))"
  using assms
proof (induction reqs arbitrary: db b)
  case Nil
  then show ?case by simp
next
  case (Cons r rest)
  obtain req now where r: "r = (req, now)" by (cases r)
  from Cons.prems have small: "\<bar>read_count b + 1\<bar> \<le> 2 ^ 53"
    by simp
  from getBlog_step [OF Cons.prems(1) small, of req now]
  consider (refused) e where "getBlog req i now db = (Inl e, db)"
    | (served) a where "getBlog req i now db =
        (Inr (b\<lparr>read_count := read_count b + 1, updatedAt := now\<rparr>, a),
         replace_blog (b\<lparr>read_count := read_count b + 1, updatedAt := now\<rparr>) db)"
    by blast
  then show ?case
  proof cases
    case refused
    have bound: "read_count b + int (length rest) \<le> 2 ^ 53"
      using Cons.prems(3) by simp
    note IH = Cons.IH [OF Cons.prems(1) Cons.prems(2) bound]
    have not_published: "state b \<noteq> ''published''"
      using getBlog_published [OF Cons.prems(1), of req now] refused by auto
    show ?thesis
      using IH not_published
      by (simp add: r refused answered_def case_prod_beta)
  next
    case served
    define b1 where "b1 = b\<lparr>read_count := read_count b + 1, updatedAt := now\<rparr>"
    have id: "blog_id b1 = i"
      using findById_id [OF Cons.prems(1)] by (simp add: b1_def)
    have found1: "Blog_findById i (replace_blog b1 db) = Some b1"
      using findById_replace [OF Cons.prems(1) id] .
    have low: "- (2 ^ 53) \<le> read_count b1"
      using Cons.prems(2) by (simp add: b1_def)
    have bound: "read_count b1 + int (length rest) \<le> 2 ^ 53"
      using Cons.prems(3) by (simp add: b1_def)
    note IH = Cons.IH [OF found1 low bound]
    have rc: "read_count b1 = read_count b + 1" and st: "state b1 = state b"
      by (simp_all add: b1_def)
    show ?thesis
      using IH
      by (simp add: r served [folded b1_def] rc st answered_def shown_read_count_def
            map_upt_Suc case_prod_beta add.assoc del: upt_Suc)
  qed
qed

theorem getBlog_counts_every_fetch_witness:
  "map shown_read_count
     (fst (getBlog_seq [(None, 1), (Some second_user, 2), (None, 3)] 10 test_db)) =
     [Some 1, Some 2, Some 3] \<and>
   (\<exists>b'. Blog_findById 10
            (snd (getBlog_seq [(None, 1), (Some second_user, 2), (None, 3)] 10 test_db)) =
            Some b' \<and> read_count b' = 3)"
proof -
  let ?reqs = "[(None, 1), (Some second_user, 2), (None, 3 :: int)]"
  have found: "Blog_findById 10 test_db = Some published_blog"
    by (simp add: Blog_findById_def fixtures)
  have low: "- (2 ^ 53) \<le> read_count published_blog"
    by (simp add: published_blog_def)
  have bound: "read_count published_blog + int (length ?reqs) \<le> 2 ^ 53"
    by (simp add: published_blog_def)
  have published: "state published_blog = ''published''"
    by (simp add: published_blog_def)
  have zero: "read_count published_blog = 0"
    by (simp add: published_blog_def)
  note t = getBlog_counts_every_fetch [OF found low bound]
  from t published have all: "filter answered (fst (getBlog_seq ?reqs 10 test_db)) =
      fst (getBlog_seq ?reqs 10 test_db)"
    by blast
  from t have len: "length (fst (getBlog_seq ?reqs 10 test_db)) = 3"
    by simp
  from t have shown: "map shown_read_count (fst (getBlog_seq ?reqs 10 test_db)) =
      map (\<lambda>k. Some (1 + int k)) [0..<3]"
    unfolding all len zero by simp
  from t obtain b' where
    "Blog_findById 10 (snd (getBlog_seq ?reqs 10 test_db)) = Some b'"
    "read_count b' = 0 + int 3"
    unfolding all len zero by blast
  with shown show ?thesis
    by (auto simp: upt_rec)
qed

section \<open>Changing the state of a blog\<close>

text \<open>
  Claim C5. Whoever asks and whatever the id, a state outside \<open>draft\<close> and \<open>published\<close>
  (or none at all) is answered with 400 before the blog is looked up, and the store is
  left as it was. For a state of the list the checks come in this order: a missing blog
  gives 404, a requester who is not the author gives 403, both with the store
  untouched, and only then is the state written, to that one blog: afterwards the
  stored blog has the requested state and differs from the old one in nothing else
  but \<open>updatedAt\<close> (when the blog already has the requested state, nothing is written).
\<close>

theorem updateBlogState_checks_in_order:
  "(req_state \<notin> set [Some ''draft'', Some ''published''] \<longrightarrow>
      updateBlogState u i req_state now db =
        (Inl (Status 400 ''Invalid state. Must be either draft or published''), db)) \<and>
   (req_state \<in> set [Some ''draft'', Some ''published''] \<and> Blog_findById i db = None \<longrightarrow>
      updateBlogState u i req_state now db = (Inl (Status 404 ''Blog not found''), db)) \<and>
   (\<forall>b. req_state \<in> set [Some ''draft'', Some ''published''] \<and> Blog_findById i db = Some b \<and>
        author b \<noteq> user_id u \<longrightarrow>
      updateBlogState u i req_state now db =
        (Inl (Status 403 ''Not authorized to update this blog''), db)) \<and>
   (\<forall>b s. req_state = Some s \<and> s \<in> set [''draft'', ''published''] \<and>
        Blog_findById i db = Some b \<and> author b = user_id u \<longrightarrow>
      updateBlogState u i req_state now db =
        (if state b = s then (Inr (''Blog '' @ s @ '' successfully'', b), db)
         else (Inr (''Blog '' @ s @ '' successfully'', b\<lparr>state := s, updatedAt := now\<rparr>),
               replace_blog (b\<lparr>state := s, updatedAt := now\<rparr>) db)) \<and>
      (\<exists>b'. Blog_findById i (snd (updateBlogState u i req_state now db)) = Some b' \<and>
            state b' = s \<and> b'\<lparr>updatedAt := updatedAt b\<rparr> = b\<lparr>state := s\<rparr>))"
proof -
  have "Blog_findById i (replace_blog (b\<lparr>state := s, updatedAt := now\<rparr>) db) =
        Some (b\<lparr>state := s, updatedAt := now\<rparr>)" if "Blog_findById i db = Some b" for b s
    using findById_replace [OF that, of "b\<lparr>state := s, updatedAt := now\<rparr>"] findById_id [OF that]
    by simp
  then show ?thesis
    by (auto simp: updateBlogState_def save_state Let_def)
qed

theorem updateBlogState_checks_in_order_witness:
  "updateBlogState test_user 11 (Some ''invalid'') 5 test_db =
     (Inl (Status 400 ''Invalid state. Must be either draft or published''), test_db) \<and>
   updateBlogState second_user 99 None 5 test_db =
     (Inl (Status 400 ''Invalid state. Must be either draft or published''), test_db) \<and>
   updateBlogState test_user 99 (Some ''published'') 5 test_db =
     (Inl (Status 404 ''Blog not found''), test_db) \<and>
   updateBlogState second_user 11 (Some ''published'') 5 test_db =
     (Inl (Status 403 ''Not authorized to update this blog''), test_db) \<and>
   (\<exists>b'. Blog_findById 11
           (snd (updateBlogState test_user 11 (Some ''published'') 5 test_db)) = Some b' \<and>
         state b' = ''published'' \<and>
         b'\<lparr>updatedAt := updatedAt draft_blog\<rparr> = draft_blog\<lparr>state := ''published''\<rparr>)"
proof -
  have found: "Blog_findById 11 test_db = Some draft_blog"
    by (simp add: Blog_findById_def fixtures)
  have absent: "Blog_findById 99 test_db = None"
    by (simp add: Blog_findById_def fixtures)
  have mine: "author draft_blog = user_id test_user"
    by (simp add: fixtures)
  have theirs: "author draft_blog \<noteq> user_id second_user"
    by (simp add: fixtures)
  note invalid =
    updateBlogState_checks_in_order [of "Some ''invalid''" test_user 11 5 test_db,
      THEN conjunct1, rule_format]
  note missing =
    updateBlogState_checks_in_order [of None second_user 99 5 test_db,
      THEN conjunct1, rule_format]
  note not_found =
    updateBlogState_checks_in_order [of "Some ''published''" test_user 99 5 test_db,
      THEN conjunct2, THEN conjunct1, rule_format]
  note forbidden =
    updateBlogState_checks_in_order [of "Some ''published''" second_user 11 5 test_db,
      THEN conjunct2, THEN conjunct2, THEN conjunct1, rule_format, of draft_blog]
  note owner =
    updateBlogState_checks_in_order [of "Some ''published''" test_user 11 5 test_db,
      THEN conjunct2, THEN conjunct2, THEN conjunct2, rule_format,
      of "''published''" draft_blog, THEN conjunct2]
  show ?thesis
  proof (intro conjI)
    show "updateBlogState test_user 11 (Some ''invalid'') 5 test_db =
        (Inl (Status 400 ''Invalid state. Must be either draft or published''), test_db)"
      by (rule invalid) simp
    show "updateBlogState second_user 99 None 5 test_db =
        (Inl (Status 400 ''Invalid state. Must be either draft or published''), test_db)"
      by (rule missing) simp
    show "updateBlogState test_user 99 (Some ''published'') 5 test_db =
        (Inl (Status 404 ''Blog not found''), test_db)"
      by (rule not_found) (simp add: absent)
    show "updateBlogState second_user 11 (Some ''published'') 5 test_db =
        (Inl (Status 403 ''Not authorized to update this blog''), test_db)"
      by (rule forbidden) (simp add: found theirs)
    show "\<exists>b'. Blog_findById 11
           (snd (updateBlogState test_user 11 (Some ''published'') 5 test_db)) = Some b' \<and>
         state b' = ''published'' \<and>
         b'\<lparr>updatedAt := updatedAt draft_blog\<rparr> = draft_blog\<lparr>state := ''published''\<rparr>"
      by (rule owner) (simp add: found mine)
  qed
qed

section \<open>The author filter of the public listing\<close>

text \<open>
  The \<open>author\<close> parameter adds at most one condition to the query of the request
  without it: the id of the user \<^verbatim>\<open>User.findOne\<close> returns, when it returns one.
  Page, limit, offset and order do not depend on the parameter.
\<close>

lemma without_author [simp]:
  "page_of (q\<lparr>q_author := x\<rparr>) = page_of q"
  "limit_of (q\<lparr>q_author := x\<rparr>) = limit_of q"
  "skip_of (q\<lparr>q_author := x\<rparr>) = skip_of q"
  "sortOption_of (q\<lparr>q_author := x\<rparr>) = sortOption_of q"
  by (simp_all add: page_of_def limit_of_def skip_of_def sortOption_of_def)

lemma published_query_author:
  assumes "q_author q = Some a" and "a \<noteq> []" and "RegExp_i a = Some re"
  shows "published_query RegExp_i q db =
     (case published_query RegExp_i (q\<lparr>q_author := None\<rparr>) db of
        Inl e \<Rightarrow> Inl e
      | Inr f \<Rightarrow> Inr (case User_findOne_name re db of
                        None \<Rightarrow> f
                      | Some u \<Rightarrow> f\<lparr>f_author := Some (user_id u)\<rparr>))"
  using assms
  by (auto simp: published_query_def truthy_def Let_def split: option.splits)

lemma published_query_no_author:
  assumes "published_query RegExp_i q db = Inr f" and "q_author q = None"
  shows "f_author f = None \<and> f_state f = Some ''published''"
  using assms
  by (auto simp: published_query_def truthy_def Let_def split: option.splits if_splits)

lemma matches_author:
  assumes "f_author f = None"
  shows "matches (f\<lparr>f_author := Some a\<rparr>) = (\<lambda>b. matches f b \<and> author b = a)"
  using assms by (auto simp: matches_def fun_eq_iff)

text \<open>\<^verbatim>\<open>User.findOne\<close> returns the first user, in the store's order, whose name matches.\<close>

lemma User_findOne_name_first:
  assumes "User_findOne_name re db = Some u"
  shows "\<exists>us vs. User db = us @ u # vs \<and> (re (first_name u) \<or> re (last_name u)) \<and>
           (\<forall>x \<in> set us. \<not> (re (first_name x) \<or> re (last_name x)))"
proof -
  from assms obtain i where i: "i < length (User db)" "User db ! i = u"
    "re (first_name u) \<or> re (last_name u)"
    "\<forall>j<i. \<not> (re (first_name (User db ! j)) \<or> re (last_name (User db ! j)))"
    unfolding User_findOne_name_def find_Some_iff by blast
  have "User db = take i (User db) @ u # drop (Suc i) (User db)"
    using i(1,2) id_take_nth_drop [of i "User db"] by metis
  moreover have "\<forall>x \<in> set (take i (User db)). \<not> (re (first_name x) \<or> re (last_name x))"
  proof
    fix x assume "x \<in> set (take i (User db))"
    then obtain j where "j < length (take i (User db))" "take i (User db) ! j = x"
      by (auto simp: in_set_conv_nth)
    with i(1,4) show "\<not> (re (first_name x) \<or> re (last_name x))"
      by auto
  qed
  ultimately show ?thesis
    using i(3) by blast
qed

text \<open>
  When a user's name matches, the listing is exactly the page of the published blogs
  of the first such user that pass the other filters; blogs of other users whose
  names match as well are not in it.
\<close>

lemma author_filter_first_match:
  assumes "q_author q = Some a" and "a \<noteq> []" and "RegExp_i a = Some re"
    and "User_findOne_name re db = Some u"
    and "fst (getPublishedBlogs RegExp_i q db) = Inr r"
  shows "\<exists>f l s. published_query RegExp_i (q\<lparr>q_author := None\<rparr>) db = Inr f \<and>
           f_state f = Some ''published'' \<and>
           limit_of q = Finite l \<and> skip_of q = Finite s \<and> l \<noteq> 0 \<and> 0 \<le> s \<and>
           data r = map (populate db)
             (take (nat \<bar>l\<bar>) (drop (nat s)
                (apply_sort (scan_rank db) (sortOption_of q)
                   (filter (\<lambda>b. matches f b \<and> author b = user_id u) (Blog db))))) \<and>
           total r = length (filter (\<lambda>b. matches f b \<and> author b = user_id u) (Blog db))"
proof -
  from assms(5) obtain g found where
    g: "published_query RegExp_i q db = Inr g"
    and found: "Blog_find g (sortOption_of q) (limit_of q) (skip_of q) db = Inr found"
    and r: "data r = map (populate db) found" "total r = Blog_countDocuments g db"
    by (auto simp: getPublishedBlogs_def Let_def split: sum.splits)
  from g published_query_author [where RegExp_i = RegExp_i and db = db, OF assms(1-3)] assms(4) obtain f where
    f: "published_query RegExp_i (q\<lparr>q_author := None\<rparr>) db = Inr f"
    and gf: "g = f\<lparr>f_author := Some (user_id u)\<rparr>"
    by (auto split: sum.splits)
  from published_query_no_author [OF f] have none: "f_author f = None"
    and st: "f_state f = Some ''published''"
    by simp_all
  have m: "matches g = (\<lambda>b. matches f b \<and> author b = user_id u)"
    unfolding gf by (rule matches_author [OF none])
  from Blog_find_window [OF found] obtain l s where
    l: "limit_of q = Finite l" and s: "skip_of q = Finite s" and "0 \<le> s"
    and w: "found =
      (if l = 0 then drop (nat s) (apply_sort (scan_rank db) (sortOption_of q)
                                       (filter (matches g) (Blog db)))
       else take (nat \<bar>l\<bar>)
              (drop (nat s) (apply_sort (scan_rank db) (sortOption_of q)
                               (filter (matches g) (Blog db)))))"
    by blast
  from l limit_of_not_zero [of q] have "l \<noteq> 0"
    by auto
  with w r m f st l s \<open>0 \<le> s\<close> show ?thesis
    by (simp add: Blog_countDocuments_def)
qed

text \<open>
  When no user's name matches, no condition is added: the answer is that of the
  request without the \<open>author\<close> parameter.
\<close>

lemma author_without_match_lists_unfiltered:
  assumes "q_author q = Some a" and "a \<noteq> []" and "RegExp_i a = Some re"
    and "User_findOne_name re db = None"
  shows "getPublishedBlogs RegExp_i q db = getPublishedBlogs RegExp_i (q\<lparr>q_author := None\<rparr>) db"
  using published_query_author [where RegExp_i = RegExp_i and db = db, OF assms(1-3)] assms(4)
  by (simp add: getPublishedBlogs_def split: sum.splits)

text \<open>
  Claim C6. The claim asks for exactly the published blogs of all users whose first or
  last name contains the given text, and for no blog when there is no such user. The
  code does neither. In the example store no user's name contains \<open>zzz\<close>, and the
  listing for \<open>author=zzz\<close> is the whole published listing, blogs 12 and 10. Both
  users' names contain \<open>user\<close>, both have a published blog, and the listing for
  \<open>author=user\<close> is blog 10 of the first user alone; were the users stored the other
  way round, it would be blog 12 alone.
\<close>

theorem author_filter_misses_users:
  "filter (\<lambda>u. icontains ''zzz'' (first_name u) \<or> icontains ''zzz'' (last_name u))
     (User test_db) = [] \<and>
   listed_ids (getPublishedBlogs literal_RegExp_i
     (no_params\<lparr>q_author := Some ''zzz''\<rparr>) test_db) = Some [12, 10] \<and>
   map user_id
     (filter (\<lambda>u. icontains ''user'' (first_name u) \<or> icontains ''user'' (last_name u))
        (User test_db)) = [1, 2] \<and>
   map blog_id (filter (\<lambda>b. state b = ''published'' \<and> author b \<in> {1, 2}) (Blog test_db)) =
     [10, 12] \<and>
   listed_ids (getPublishedBlogs literal_RegExp_i
     (no_params\<lparr>q_author := Some ''user''\<rparr>) test_db) = Some [10] \<and>
   listed_ids (getPublishedBlogs literal_RegExp_i
     (no_params\<lparr>q_author := Some ''user''\<rparr>)
     (test_db\<lparr>User := [second_user, test_user]\<rparr>)) = Some [12]"
  by code_simp

section \<open>The order of the public listing\<close>

text \<open>
  With a sort key the answer is in descending order of that key. The key is
  \<open>createdAt\<close> when \<open>order_by\<close> is absent or empty, and \<open>order_by\<close> itself when it is one
  of the three valid fields. For any other \<open>order_by\<close> there is no key.
\<close>

lemma sortOption_of_cases:
  "sortOption_of q =
     (case q_order_by q of
        None \<Rightarrow> Some ''createdAt''
      | Some k \<Rightarrow> if k = [] then Some ''createdAt''
                  else if k \<in> set validSortFields then Some k else None)"
  by (simp add: sortOption_of_def truthy_def split: option.splits)

lemma apply_sort_descending:
  "sorted_wrt (\<lambda>x y. field_of k y \<le> field_of k x) (apply_sort rank (Some k) xs)"
proof -
  have "sorted (map (\<lambda>b. - field_of k b) (sort_key (\<lambda>b. - field_of k b) (sort_key rank xs)))"
    by (rule sorted_sort_key)
  then show ?thesis
    by (simp add: apply_sort_def sorted_wrt_map)
qed

lemma Blog_find_descending:
  assumes "Blog_find f (Some k) limit skip db = Inr found"
  shows "sorted_wrt (\<lambda>x y. field_of k y \<le> field_of k x) found"
proof -
  from Blog_find_window [OF assms] obtain l s where
    "found = (if l = 0 then drop (nat s) (apply_sort (scan_rank db) (Some k) (filter (matches f) (Blog db)))
              else take (nat \<bar>l\<bar>)
                     (drop (nat s) (apply_sort (scan_rank db) (Some k) (filter (matches f) (Blog db)))))"
    by blast
  then show ?thesis
    using apply_sort_descending [of k "scan_rank db" "filter (matches f) (Blog db)"]
    by (simp add: sorted_wrt_take sorted_wrt_drop)
qed

lemma listing_descending:
  assumes "fst (getPublishedBlogs RegExp_i q db) = Inr r" and "sortOption_of q = Some k"
  shows "sorted_wrt (\<lambda>x y. field_of k (fst y) \<le> field_of k (fst x)) (data r)"
proof -
  from assms obtain f found
    where found: "Blog_find f (Some k) (limit_of q) (skip_of q) db = Inr found"
      and data: "data r = map (populate db) found"
    by (auto simp: getPublishedBlogs_def Let_def split: sum.splits)
  from Blog_find_descending [OF found] show ?thesis
    by (simp add: data sorted_wrt_map)
qed

text \<open>
  What the answer to \<open>order_by=title\<close> then looks like is up to the store. The example
  store, which scans in the order of insertion, answers oldest first; the same
  documents in a store that scans newest first are answered newest first.
\<close>

lemma unknown_order_by_follows_the_store:
  "listed_ids (getPublishedBlogs literal_RegExp_i
      (no_params\<lparr>q_order_by := Some ''title''\<rparr>) test_db) = Some [10, 12] \<and>
   listed_ids (getPublishedBlogs literal_RegExp_i
      (no_params\<lparr>q_order_by := Some ''title''\<rparr>)
      (test_db\<lparr>scan_rank := (\<lambda>b. - createdAt b)\<rparr>)) = Some [12, 10] \<and>
   listed_ids (getPublishedBlogs literal_RegExp_i no_params test_db) = Some [12, 10]"
  by code_simp

text \<open>
  Claim C7. The claim asks that the default sort, \<open>createdAt\<close> descending, applies when
  \<open>order_by\<close> is not one of the three valid fields. The code does not do this: for
  \<open>order_by=title\<close> it builds the empty sort document, where for a request without
  \<open>order_by\<close> it builds \<open>createdAt: -1\<close>; and so, on every store, its answer is the first
  twenty published blogs in the store's own order, in which \<open>createdAt\<close> has no part.
\<close>

theorem unknown_order_by_sends_no_sort:
  "sortOption_of (no_params\<lparr>q_order_by := Some ''title''\<rparr>) = None \<and>
   sortOption_of no_params = Some ''createdAt'' \<and>
   listed_ids (getPublishedBlogs RegExp_i (no_params\<lparr>q_order_by := Some ''title''\<rparr>) db) =
     Some (map blog_id
            (take 20 (sort_key (scan_rank db)
                        (filter (\<lambda>b. state b = ''published'') (Blog db)))))"
proof -
  let ?q = "no_params\<lparr>q_order_by := Some ''title''\<rparr>"
  have none: "sortOption_of ?q = None"
    by (simp add: sortOption_of_cases no_params_def validSortFields_def)
  have default: "sortOption_of no_params = Some ''createdAt''"
    by (simp add: sortOption_of_cases no_params_def)
  have page: "page_of ?q = Finite 1" and limit: "limit_of ?q = Finite 20"
    by (simp_all add: page_of_def limit_of_def parseInt_def or_default_def no_params_def)
  have skip: "skip_of ?q = Finite 0"
    by (simp add: skip_of_def page limit minus_one_def times_def Number_exact)
  have query: "published_query RegExp_i ?q db =
      Inr \<lparr>f_state = Some ''published'', f_author = None, f_title = None, f_tags_in = None\<rparr>"
    by (simp add: published_query_def truthy_def no_params_def)
  have same: "matches \<lparr>f_state = Some ''published'', f_author = None, f_title = None,
                       f_tags_in = None\<rparr> = (\<lambda>b. state b = ''published'')"
    by (simp add: matches_def fun_eq_iff)
  have "listed_ids (getPublishedBlogs RegExp_i ?q db) =
     Some (map blog_id
            (take 20 (sort_key (scan_rank db)
                        (filter (\<lambda>b. state b = ''published'') (Blog db)))))"
    by (simp add: listed_ids_def getPublishedBlogs_def Blog_find_def apply_sort_def
        none limit skip query same Let_def comp_def)
  with none default show ?thesis by simp
qed

section \<open>Pages\<close>

lemma ceil_div_ceiling: "ceil_div t l = \<lceil>real_of_int t / real_of_int l\<rceil>"
proof -
  have "\<lfloor>- (real_of_int t / real_of_int l)\<rfloor> = \<lfloor>real_of_int (- t) / real_of_int l\<rfloor>"
    by simp
  also have "\<dots> = (- t) div l"
    by (rule floor_divide_of_int_eq)
  finally show ?thesis
    by (simp add: ceil_div_def ceiling_def)
qed

text \<open>
  \<^verbatim>\<open>parseInt\<close> rounds what it reads to a double and skips a leading no-break space.
\<close>

lemma parseInt_rounds:
  "parseInt (Some ''9007199254740993'') = Finite 9007199254740992 \<and>
   parseInt (Some [CHR 0xC2, CHR 0xA0, CHR ''7'', CHR ''x'']) = Finite 7 \<and>
   parseInt (Some '' 0x1F'') = Finite 31 \<and>
   parseInt (Some ''abc'') = NaN \<and> parseInt None = NaN"
  by code_simp

text \<open>A negative \<open>page\<close> or \<open>limit\<close> is truthy, so the default does not replace it.\<close>

theorem paging_keeps_negative_counterexample:
  "page_of (no_params\<lparr>q_page := Some ''-3''\<rparr>) = Finite (- 3) \<and>
   page_of (no_params\<lparr>q_page := Some ''-3''\<rparr>) \<noteq> Finite 1 \<and>
   limit_of (no_params\<lparr>q_limit := Some ''-5''\<rparr>) = Finite (- 5) \<and>
   limit_of (no_params\<lparr>q_limit := Some ''-5''\<rparr>) \<noteq> Finite 20"
  by code_simp

lemma listing_facts:
  assumes "Blog_find f so (limit_of q) (skip_of q) db = Inr found"
  shows "\<exists>s l. skip_of q = Finite s \<and> limit_of q = Finite l \<and> 0 \<le> s \<and> l \<noteq> 0 \<and>
           ceil_quotient (Blog_countDocuments f db) (limit_of q) =
             Finite \<lceil>real (Blog_countDocuments f db) / real_of_int l\<rceil> \<and>
           (0 < l \<longrightarrow> length found = min (nat l) (Blog_countDocuments f db - nat s))"
proof -
  from Blog_find_window [OF assms] obtain l s where
    l: "limit_of q = Finite l" and s: "skip_of q = Finite s" and "0 \<le> s"
    and found: "found =
      (if l = 0 then drop (nat s) (apply_sort (scan_rank db) so (filter (matches f) (Blog db)))
       else take (nat \<bar>l\<bar>)
              (drop (nat s) (apply_sort (scan_rank db) so (filter (matches f) (Blog db)))))"
    by blast
  from l limit_of_not_zero [of q] have "l \<noteq> 0"
    by auto
  have "ceil_quotient (Blog_countDocuments f db) (limit_of q) =
      Finite \<lceil>real (Blog_countDocuments f db) / real_of_int l\<rceil>"
    using \<open>l \<noteq> 0\<close> ceil_div_ceiling [of "int (Blog_countDocuments f db)" l]
    by (simp add: ceil_quotient_def l)
  moreover have "length found = min (nat l) (Blog_countDocuments f db - nat s)" if "0 < l"
    using that found by (simp add: Blog_countDocuments_def min.commute)
  ultimately show ?thesis
    using l s \<open>0 \<le> s\<close> \<open>l \<noteq> 0\<close> by blast
qed

text \<open>
  Claim C8, amended. In both listings \<open>page\<close> is 1 and \<open>limit\<close> is 20 when the
  parameter is absent, does not start with a number, or reads as 0; any other Number
  that \<^verbatim>\<open>parseInt\<close> reads from the parameter, a negative one included, is used as it is.
  The offset is \<open>(page - 1) * limit\<close> in Number arithmetic, which is the exact product
  while \<open>page - 1\<close> and the product stay within \<open>2^53\<close>. When the listing is answered,
  \<open>page\<close> is that page, \<open>count\<close> is the number of blogs in the answer, the offset and the
  limit are integers, the offset not negative; \<open>pages\<close> is \<open>total / limit\<close> rounded up,
  and for a positive limit \<open>count\<close> is what is left of the \<open>total\<close> after the offset, up
  to \<open>limit\<close>.
\<close>

theorem listing_paging:
  "(parseInt (q_page q) = NaN \<or> parseInt (q_page q) = Finite 0 \<longrightarrow> page_of q = Finite 1) \<and>
   (parseInt (q_page q) \<noteq> NaN \<and> parseInt (q_page q) \<noteq> Finite 0 \<longrightarrow>
      page_of q = parseInt (q_page q)) \<and>
   (parseInt (q_limit q) = NaN \<or> parseInt (q_limit q) = Finite 0 \<longrightarrow>
      limit_of q = Finite 20) \<and>
   (parseInt (q_limit q) \<noteq> NaN \<and> parseInt (q_limit q) \<noteq> Finite 0 \<longrightarrow>
      limit_of q = parseInt (q_limit q)) \<and>
   skip_of q = times (minus_one (page_of q)) (limit_of q) \<and>
   (\<forall>p l. page_of q = Finite p \<and> limit_of q = Finite l \<and>
          \<bar>p - 1\<bar> \<le> 2 ^ 53 \<and> \<bar>(p - 1) * l\<bar> \<le> 2 ^ 53 \<longrightarrow>
      skip_of q = Finite ((p - 1) * l)) \<and>
   (\<forall>r. fst (getPublishedBlogs RegExp_i q db) = Inr r \<longrightarrow>
      page r = page_of q \<and> count r = length (data r) \<and>
      (\<exists>s l. skip_of q = Finite s \<and> limit_of q = Finite l \<and> 0 \<le> s \<and> l \<noteq> 0 \<and>
         (int (total r) + \<bar>l\<bar> < 2 ^ 53 \<longrightarrow>
            pages r = Finite \<lceil>real (total r) / real_of_int l\<rceil>) \<and>
         (0 < l \<longrightarrow> count r = min (nat l) (total r - nat s)))) \<and>
   (\<forall>r. fst (getUserBlogs u q db) = Inr r \<longrightarrow>
      page r = page_of q \<and> count r = length (data r) \<and>
      (\<exists>s l. skip_of q = Finite s \<and> limit_of q = Finite l \<and> 0 \<le> s \<and> l \<noteq> 0 \<and>
         (int (total r) + \<bar>l\<bar> < 2 ^ 53 \<longrightarrow>
            pages r = Finite \<lceil>real (total r) / real_of_int l\<rceil>) \<and>
         (0 < l \<longrightarrow> count r = min (nat l) (total r - nat s))))"
proof -
  have params:
    "(parseInt (q_page q) = NaN \<or> parseInt (q_page q) = Finite 0 \<longrightarrow> page_of q = Finite 1) \<and>
     (parseInt (q_page q) \<noteq> NaN \<and> parseInt (q_page q) \<noteq> Finite 0 \<longrightarrow>
        page_of q = parseInt (q_page q)) \<and>
     (parseInt (q_limit q) = NaN \<or> parseInt (q_limit q) = Finite 0 \<longrightarrow>
        limit_of q = Finite 20) \<and>
     (parseInt (q_limit q) \<noteq> NaN \<and> parseInt (q_limit q) \<noteq> Finite 0 \<longrightarrow>
        limit_of q = parseInt (q_limit q)) \<and>
     skip_of q = times (minus_one (page_of q)) (limit_of q)"
    by (auto simp: page_of_def limit_of_def skip_of_def or_default_def)
  have exact: "skip_of q = Finite ((p - 1) * l)"
    if "page_of q = Finite p" "limit_of q = Finite l" "\<bar>p - 1\<bar> \<le> 2 ^ 53"
      "\<bar>(p - 1) * l\<bar> \<le> 2 ^ 53" for p l
    using that by (simp add: skip_of_def minus_one_def times_def Number_exact)
  have published: "page r = page_of q \<and> count r = length (data r) \<and>
      (\<exists>s l. skip_of q = Finite s \<and> limit_of q = Finite l \<and> 0 \<le> s \<and> l \<noteq> 0 \<and>
         (int (total r) + \<bar>l\<bar> < 2 ^ 53 \<longrightarrow>
            pages r = Finite \<lceil>real (total r) / real_of_int l\<rceil>) \<and>
         (0 < l \<longrightarrow> count r = min (nat l) (total r - nat s)))"
    if "fst (getPublishedBlogs RegExp_i q db) = Inr r" for r
  proof -
    from that obtain f found where
      found: "Blog_find f (sortOption_of q) (limit_of q) (skip_of q) db = Inr found"
      and r: "r = \<lparr>count = length (map (populate db) found),
                  total = Blog_countDocuments f db, page = page_of q,
                  pages = ceil_quotient (Blog_countDocuments f db) (limit_of q),
                  data = map (populate db) found\<rparr>"
      by (auto simp: getPublishedBlogs_def Let_def split: sum.splits)
    from listing_facts [OF found] show ?thesis
      unfolding r by auto
  qed
  have own: "page r = page_of q \<and> count r = length (data r) \<and>
      (\<exists>s l. skip_of q = Finite s \<and> limit_of q = Finite l \<and> 0 \<le> s \<and> l \<noteq> 0 \<and>
         (int (total r) + \<bar>l\<bar> < 2 ^ 53 \<longrightarrow>
            pages r = Finite \<lceil>real (total r) / real_of_int l\<rceil>) \<and>
         (0 < l \<longrightarrow> count r = min (nat l) (total r - nat s)))"
    if "fst (getUserBlogs u q db) = Inr r" for r
  proof -
    from that obtain f found where
      found: "Blog_find f (Some ''createdAt'') (limit_of q) (skip_of q) db = Inr found"
      and r: "r = \<lparr>count = length found,
                  total = Blog_countDocuments f db, page = page_of q,
                  pages = ceil_quotient (Blog_countDocuments f db) (limit_of q),
                  data = found\<rparr>"
      by (auto simp: getUserBlogs_def Let_def split: sum.splits)
    from listing_facts [OF found] show ?thesis
      unfolding r by auto
  qed
  from params exact published own show ?thesis by blast
qed

theorem listing_paging_witness:
  "page_of no_params = Finite 1 \<and> limit_of no_params = Finite 20 \<and>
   page_of (no_params\<lparr>q_page := Some ''0''\<rparr>) = Finite 1 \<and>
   page_of (no_params\<lparr>q_page := Some ''2''\<rparr>) = Finite 2 \<and>
   skip_of (no_params\<lparr>q_page := Some ''2''\<rparr>) = Finite 20 \<and>
   (\<exists>r. fst (getUserBlogs test_user (no_params\<lparr>q_limit := Some ''1''\<rparr>) test_db) = Inr r \<and>
        count r = 1 \<and> total r = 2 \<and> pages r = Finite 2 \<and> page r = Finite 1)"
proof -
  let ?two = "no_params\<lparr>q_page := Some ''2''\<rparr>"
  let ?one = "no_params\<lparr>q_limit := Some ''1''\<rparr>"
  have absent: "parseInt (q_page no_params) = NaN" "parseInt (q_limit no_params) = NaN"
    by (simp_all add: no_params_def parseInt_def)
  have zero: "parseInt (q_page (no_params\<lparr>q_page := Some ''0''\<rparr>)) = Finite 0"
    by code_simp
  have two: "parseInt (q_page ?two) = Finite 2"
    by code_simp
  have lim: "parseInt (q_limit ?two) = NaN"
    by (simp add: no_params_def parseInt_def)
  have one: "parseInt (q_limit ?one) = Finite 1" "parseInt (q_page ?one) = NaN"
    by code_simp+
  have p1: "page_of no_params = Finite 1"
    using listing_paging [of no_params, THEN conjunct1] absent by blast
  have l1: "limit_of no_params = Finite 20"
    using listing_paging [of no_params, THEN conjunct2, THEN conjunct2, THEN conjunct1] absent
    by blast
  have p0: "page_of (no_params\<lparr>q_page := Some ''0''\<rparr>) = Finite 1"
    using listing_paging [of "no_params\<lparr>q_page := Some ''0''\<rparr>", THEN conjunct1] zero by blast
  have p2: "page_of ?two = Finite 2"
    using listing_paging [of ?two, THEN conjunct2, THEN conjunct1] two by simp
  have l2: "limit_of ?two = Finite 20"
    using listing_paging [of ?two, THEN conjunct2, THEN conjunct2, THEN conjunct1] lim by blast
  have s2: "skip_of ?two = Finite 20"
    using listing_paging [of ?two, THEN conjunct2, THEN conjunct2, THEN conjunct2,
        THEN conjunct2, THEN conjunct2, THEN conjunct1, rule_format, of 2 20]
    by (simp add: p2 l2)
  have lo: "limit_of ?one = Finite 1"
    using listing_paging [of ?one, THEN conjunct2, THEN conjunct2, THEN conjunct2,
        THEN conjunct1] one(1) by simp
  have po: "page_of ?one = Finite 1"
    using listing_paging [of ?one, THEN conjunct1] one(2) by blast
  have so: "skip_of ?one = Finite 0"
    using listing_paging [of ?one, THEN conjunct2, THEN conjunct2, THEN conjunct2,
        THEN conjunct2, THEN conjunct2, THEN conjunct1, rule_format, of 1 1]
    by (simp add: po lo)
  have "(case fst (getUserBlogs test_user ?one test_db) of
           Inl _ \<Rightarrow> None | Inr l \<Rightarrow> Some (total l)) = Some 2"
    by code_simp
  then obtain r where r: "fst (getUserBlogs test_user ?one test_db) = Inr r" and t: "total r = 2"
    by (auto split: sum.splits)
  from listing_paging [of ?one _ test_db test_user, THEN conjunct2, THEN conjunct2,
      THEN conjunct2, THEN conjunct2, THEN conjunct2, THEN conjunct2, THEN conjunct2,
      rule_format, OF r]
  have "page r = Finite 1 \<and> pages r = Finite 2 \<and> count r = 1"
    by (auto simp: po lo so t)
  with r t p1 l1 p0 p2 s2 show ?thesis by blast
qed

section \<open>Signing in\<close>

text \<open>
  Claim C9. Take two signin requests that both give an email and a password: one with
  an email that no user has, one with the email of a user whose password check fails.
  Both get the same answer, 401 with the message \<open>Invalid credentials\<close>, so the answer
  does not tell which of the two checks failed.
\<close>

theorem signin_undifferentiated:
  assumes "ea \<noteq> []" "pa \<noteq> []" "eb \<noteq> []" "pb \<noteq> []"
    and "User_findOne_email ea db = None"
    and "User_findOne_email eb db = Some u" "\<not> comparePassword u pb"
  shows "signin comparePassword generateToken (Some ea) (Some pa) db =
           Inl (Status 401 ''Invalid credentials'') \<and>
         signin comparePassword generateToken (Some eb) (Some pb) db =
           signin comparePassword generateToken (Some ea) (Some pa) db"
  using assms by (simp add: signin_def truthy_def)

theorem signin_undifferentiated_witness:
  "signin test_compare (\<lambda>i. ''token'') (Some ''nobody@test.com'') (Some ''hash-1'') test_db =
     Inl (Status 401 ''Invalid credentials'') \<and>
   signin test_compare (\<lambda>i. ''token'') (Some ''test@test.com'') (Some ''wrong'') test_db =
   signin test_compare (\<lambda>i. ''token'') (Some ''nobody@test.com'') (Some ''hash-1'') test_db"
proof -
  have unknown: "User_findOne_email ''nobody@test.com'' test_db = None"
    by (simp add: User_findOne_email_def fixtures)
  have known: "User_findOne_email ''test@test.com'' test_db = Some test_user"
    by (simp add: User_findOne_email_def fixtures)
  have wrong: "\<not> test_compare test_user ''wrong''"
    by (simp add: test_compare_def test_user_def)
  have given: "''nobody@test.com'' \<noteq> []" "''hash-1'' \<noteq> []" "''test@test.com'' \<noteq> []"
    "''wrong'' \<noteq> []"
    by simp_all
  show ?thesis
    using signin_undifferentiated [where ea = "''nobody@test.com''" and pa = "''hash-1''"
        and eb = "''test@test.com''" and pb = "''wrong''" and db = test_db and u = test_user
        and comparePassword = test_compare and generateToken = "\<lambda>i. ''token''"]
      given unknown known wrong
    by blast
qed

section \<open>Tokens on the routes that do not require one\<close>

text \<open>
  On a route behind \<open>protect\<close> a header whose token fails verification, or from which no
  token can be read, is answered with 401.
\<close>

lemma protect_rejects_invalid_token:
  assumes "\<forall>t. bearer_token (Some h) = Some t \<longrightarrow> jwt_verify t = None"
  shows "\<exists>m. protect jwt_verify (Some h) db = Inl (Status 401 m)"
  using assms by (auto simp: protect_def split: option.splits)

text \<open>
  Claim C10. Let a request carry an \<open>Authorization\<close> header whose token, if one can be
  read from it at all, fails verification. The single-blog route then does exactly what
  it does for a request with no header: it never answers 401, and a draft is refused
  with 403 \<open>Access denied\<close>, also when the token once belonged to the draft's author.
  The public listing does not read the header, so it too answers as for an anonymous
  request and never with 401.
\<close>

theorem invalid_token_is_anonymous:
  assumes "\<forall>t. bearer_token (Some h) = Some t \<longrightarrow> jwt_verify t = None"
  shows "route_getBlog jwt_verify (Some h) i now db = route_getBlog jwt_verify None i now db \<and>
         (\<forall>m. fst (route_getBlog jwt_verify (Some h) i now db) \<noteq> Inl (Status 401 m)) \<and>
         (\<forall>b. Blog_findById i db = Some b \<and> state b \<noteq> ''published'' \<longrightarrow>
            route_getBlog jwt_verify (Some h) i now db =
              (Inl (Status 403 ''Access denied''), db)) \<and>
         route_getPublishedBlogs RegExp_i (Some h) q db =
           route_getPublishedBlogs RegExp_i None q db \<and>
         (\<forall>m. fst (route_getPublishedBlogs RegExp_i (Some h) q db) \<noteq> Inl (Status 401 m))"
proof -
  have anon: "optionalAuth jwt_verify (Some h) db = None"
    using assms by (auto simp: optionalAuth_def bearer_token_def split: option.splits)
  have none: "optionalAuth jwt_verify None db = None"
    by (simp add: optionalAuth_def)
  have no401: "fst (getBlog None i now db) \<noteq> Inl (Status 401 m)" for m
    by (simp add: getBlog_def populate_def save_def Let_def
        split: option.splits prod.splits)
  have draft: "getBlog None i now db = (Inl (Status 403 ''Access denied''), db)"
    if "Blog_findById i db = Some b" "state b \<noteq> ''published''" for b
    using that by (simp add: getBlog_def populate_def)
  have listing: "fst (getPublishedBlogs RegExp_i q db) \<noteq> Inl (Status 401 m)" for m
    by (simp add: getPublishedBlogs_def Let_def split: sum.splits)
  show ?thesis
    using no401 draft listing
    by (simp add: route_getBlog_def route_getPublishedBlogs_def anon none)
qed

theorem invalid_token_is_anonymous_witness:
  "route_getBlog test_jwt (Some ''Bearer expired.token'') 11 0 test_db =
     (Inl (Status 403 ''Access denied''), test_db) \<and>
   route_getBlog test_jwt (Some ''Bearer expired.token'') 11 0 test_db =
     route_getBlog test_jwt None 11 0 test_db \<and>
   (\<exists>v. fst (route_getBlog test_jwt (Some ''Bearer valid.token'') 11 0 test_db) = Inr v)"
proof -
  have expired: "\<forall>t. bearer_token (Some ''Bearer expired.token'') = Some t \<longrightarrow> test_jwt t = None"
    by (simp add: bearer_token_def startsWith_def at_index_def test_jwt_def)
  have found: "Blog_findById 11 test_db = Some draft_blog"
    by (simp add: Blog_findById_def fixtures)
  have draft: "state draft_blog \<noteq> ''published''"
    by (simp add: fixtures)
  have "answered (fst (route_getBlog test_jwt (Some ''Bearer valid.token'') 11 0 test_db))"
    by code_simp
  then have valid:
    "\<exists>v. fst (route_getBlog test_jwt (Some ''Bearer valid.token'') 11 0 test_db) = Inr v"
    by (auto simp: answered_def split: sum.splits)
  have denied: "route_getBlog test_jwt (Some ''Bearer expired.token'') 11 0 test_db =
      (Inl (Status 403 ''Access denied''), test_db)"
    and same: "route_getBlog test_jwt (Some ''Bearer expired.token'') 11 0 test_db =
      route_getBlog test_jwt None 11 0 test_db"
    using invalid_token_is_anonymous [OF expired, of 11 0 test_db literal_RegExp_i no_params]
      found draft
    by blast+
  from denied same valid show ?thesis by simp
qed

end
